theory Spec2Isabelle
  imports
    Complex_Main
    "HOL-Library.AList"
    "HOL-Library.Multiset"
    "HOL-Library.Sublist"
    "HOL-Library.Char_ord"
    "HOL-Library.List_Lexorder"
    "HOL-Library.Product_Lexorder"
begin

section \<open>Data model\<close>

text \<open>
  The pipeline of \<^verbatim>\<open>retail_pipeline.py\<close> works on one pandas DataFrame. A cell is
  missing (NaN, NaT or None), text, a number, a timestamp or a boolean. Numbers are
  modelled as exact rationals: the float64 rounding of pandas is not part of the model.
  A timestamp keeps the calendar year and month the pipeline reads, and the rest of the
  instant (day and time of day) as two further integers.
\<close>

datatype timestamp = Timestamp (ts_year: int) (ts_month: int) (ts_day: int) (ts_nanos: int)

datatype cell = NA | Str string | Num rat | Date timestamp | Bool bool

text \<open>
  A row maps column names to cells, in column order. Every row carries its index label:
  \<^verbatim>\<open>read_csv\<close> numbers the rows \<open>0, 1, 2, ...\<close> and the filters of the pipeline keep
  the labels of the rows that survive. \<open>cols\<close> is \<^verbatim>\<open>df.columns\<close>. The frames of a run have
  distinct column names and distinct row labels, and every row has one cell per column
  (\<open>keyed\<close>); a theorem that needs one of these facts assumes it.
\<close>

type_synonym row = "(string \<times> cell) list"

record table =
  cols :: "string list"
  rows :: "(nat \<times> row) list"

type_synonym series = "(nat \<times> cell) list"

text \<open>A file written by \<^verbatim>\<open>to_csv\<close>: its name and the frame it holds.\<close>

type_synonym csv_file = "string \<times> table"

datatype error = ValueError | TypeError

definition keyed :: "table \<Rightarrow> bool" where
  \<comment> \<open>every row has one cell for every column, in column order\<close>
  "keyed t \<longleftrightarrow> list_all (\<lambda>r. map fst (snd r) = cols t) (rows t)"

definition vals :: "nat \<times> row \<Rightarrow> cell list" where
  "vals r = map snd (snd r)"

definition cell_of :: "row \<Rightarrow> string \<Rightarrow> cell" where
  \<comment> \<open>the cell of a row in a column that exists; a column that does not exist reads as missing\<close>
  "cell_of r c = (case map_of r c of Some v \<Rightarrow> v | None \<Rightarrow> NA)"

definition column :: "table \<Rightarrow> string \<Rightarrow> series" where
  \<comment> \<open>\<^verbatim>\<open>df[c]\<close>\<close>
  "column t c = map (\<lambda>r. (fst r, cell_of (snd r) c)) (rows t)"

definition col_all :: "(cell \<Rightarrow> bool) \<Rightarrow> string \<Rightarrow> table \<Rightarrow> bool" where
  "col_all P k t \<longleftrightarrow> list_all (\<lambda>r. P (cell_of (snd r) k)) (rows t)"


definition frame_empty :: "table \<Rightarrow> bool" where
  \<comment> \<open>\<^verbatim>\<open>DataFrame.empty\<close>: some axis has length zero\<close>
  "frame_empty t \<longleftrightarrow> cols t = [] \<or> rows t = []"

definition select :: "bool list \<Rightarrow> 'a list \<Rightarrow> 'a list" where
  \<comment> \<open>\<^verbatim>\<open>df[m]\<close> with a boolean series \<open>m\<close> on the same index\<close>
  "select m xs = map snd (filter fst (zip m xs))"

definition map_col :: "string \<Rightarrow> (cell \<Rightarrow> cell) \<Rightarrow> table \<Rightarrow> table" where
  \<comment> \<open>\<^verbatim>\<open>df[c] = f(df[c])\<close> for an elementwise \<open>f\<close> and a column that exists\<close>
  "map_col c f t = t\<lparr>rows := map (\<lambda>r. (fst r, AList.map_entry c f (snd r))) (rows t)\<rparr>"

definition assign :: "string \<Rightarrow> cell list \<Rightarrow> table \<Rightarrow> table" where
  \<comment> \<open>\<^verbatim>\<open>df[c] = s\<close> for a series on the index of \<open>df\<close>: replaces the column in place,
      or appends it as the last column\<close>
  "assign c vs t =
     \<lparr>cols = (if c \<in> set (cols t) then cols t else cols t @ [c]),
      rows = map (\<lambda>(r, v). (fst r, AList.update c v (snd r))) (zip (rows t) vs)\<rparr>"

section \<open>Text and the library functions the pipeline calls\<close>

text \<open>
  The input is decoded as ISO-8859-1, so every character of a header or a cell is one
  code point below 256, which is what \<^typ>\<open>char\<close> holds. \<open>py_strip\<close>, \<open>py_lower\<close> and
  \<open>py_title\<close> are Python's \<^verbatim>\<open>str.strip()\<close>, \<^verbatim>\<open>str.lower()\<close> and \<^verbatim>\<open>str.title()\<close> on such
  text. The title-case forms of U+00B5 and U+00FF lie outside ISO-8859-1; the model
  leaves these two characters as they are.
\<close>

definition is_space :: "char \<Rightarrow> bool" where
  "is_space c =
     (let n = (of_char c :: nat)
      in (9 \<le> n \<and> n \<le> 13) \<or> (28 \<le> n \<and> n \<le> 32) \<or> n = 133 \<or> n = 160)"

definition is_upper :: "char \<Rightarrow> bool" where
  "is_upper c =
     (let n = (of_char c :: nat)
      in (65 \<le> n \<and> n \<le> 90) \<or> (192 \<le> n \<and> n \<le> 214) \<or> (216 \<le> n \<and> n \<le> 222))"

definition is_lower :: "char \<Rightarrow> bool" where
  "is_lower c =
     (let n = (of_char c :: nat)
      in (97 \<le> n \<and> n \<le> 122) \<or> n = 170 \<or> n = 181 \<or> n = 186 \<or>
         (223 \<le> n \<and> n \<le> 246) \<or> (248 \<le> n \<and> n \<le> 255))"

definition is_cased :: "char \<Rightarrow> bool" where
  "is_cased c \<longleftrightarrow> is_upper c \<or> is_lower c"

definition lower_char :: "char \<Rightarrow> char" where
  "lower_char c = (if is_upper c then char_of (of_char c + (32 :: nat)) else c)"

definition title_char :: "char \<Rightarrow> string" where
  "title_char c =
     (let n = (of_char c :: nat)
      in if (97 \<le> n \<and> n \<le> 122) \<or> (224 \<le> n \<and> n \<le> 246) \<or> (248 \<le> n \<and> n \<le> 254)
         then [char_of (n - 32)]
         else if n = 223 then ''Ss'' else [c])"

definition py_strip :: "string \<Rightarrow> string" where
  "py_strip s = rev (dropWhile is_space (rev (dropWhile is_space s)))"

definition py_lower :: "string \<Rightarrow> string" where
  "py_lower s = map lower_char s"

definition py_replace :: "char \<Rightarrow> char \<Rightarrow> string \<Rightarrow> string" where
  \<comment> \<open>\<^verbatim>\<open>s.replace(a, b)\<close> for one-character \<open>a\<close> and \<open>b\<close>\<close>
  "py_replace a b s = map (\<lambda>x. if x = a then b else x) s"

fun title_from :: "bool \<Rightarrow> string \<Rightarrow> string" where
  \<comment> \<open>the flag says whether the previous character was cased\<close>
  "title_from prev [] = []"
| "title_from prev (c # cs) =
     (if prev then [lower_char c] else title_char c) @ title_from (is_cased c) cs"

definition py_title :: "string \<Rightarrow> string" where
  "py_title s = title_from False s"

text \<open>
  What pandas and Python compute from the text of a cell is not code of this repository.
  It is a parameter of the model: how \<^verbatim>\<open>pd.to_datetime\<close> reads a cell, how
  \<^verbatim>\<open>pd.to_numeric\<close> and Python's \<^verbatim>\<open>float\<close> read text, how \<^verbatim>\<open>str\<close> prints a cell that is
  not text, and how \<^verbatim>\<open>sort_values(ascending=False)\<close> orders the rows of the product
  summary (pandas sorts with its default kind \<^verbatim>\<open>quicksort\<close>, which is not stable).
\<close>

type_synonym product = "nat \<times> string \<times> rat"

record env =
  parse_datetime :: "cell \<Rightarrow> timestamp option"
  parse_numeric :: "string \<Rightarrow> rat option"
  parse_float :: "string \<Rightarrow> rat option"
  str_of_cell :: "cell \<Rightarrow> string"
  sort_values_desc :: "product list \<Rightarrow> product list"

definition to_datetime :: "env \<Rightarrow> cell \<Rightarrow> cell" where
  \<comment> \<open>\<^verbatim>\<open>pd.to_datetime(..., errors="coerce")\<close>, cell by cell: a timestamp, or missing
      when pandas cannot read the cell\<close>
  "to_datetime E c =
     (case c of NA \<Rightarrow> NA
      | _ \<Rightarrow> (case parse_datetime E c of Some ts \<Rightarrow> Date ts | None \<Rightarrow> NA))"

definition to_numeric :: "env \<Rightarrow> cell \<Rightarrow> cell" where
  \<comment> \<open>\<^verbatim>\<open>pd.to_numeric(..., errors="coerce")\<close>, cell by cell: text becomes its number, or
      missing when it is not one; a cell that is no text stays as it is\<close>
  "to_numeric E c =
     (case c of Str s \<Rightarrow> (case parse_numeric E s of Some x \<Rightarrow> Num x | None \<Rightarrow> NA)
      | _ \<Rightarrow> c)"

definition astype_str :: "env \<Rightarrow> cell \<Rightarrow> string" where
  \<comment> \<open>\<^verbatim>\<open>.astype(str)\<close>: a missing cell becomes the text \<^verbatim>\<open>nan\<close> (pandas before 3.0)\<close>
  "astype_str E c = (case c of Str s \<Rightarrow> s | NA \<Rightarrow> ''nan'' | _ \<Rightarrow> str_of_cell E c)"

definition astype_float64 :: "env \<Rightarrow> cell \<Rightarrow> error + cell" where
  \<comment> \<open>\<^verbatim>\<open>.astype("float64")\<close>: text that is not a number raises ValueError\<close>
  "astype_float64 E c =
     (case c of
        NA \<Rightarrow> Inr NA
      | Num x \<Rightarrow> Inr (Num x)
      | Bool b \<Rightarrow> Inr (Num (if b then 1 else 0))
      | Str s \<Rightarrow> (case parse_float E s of Some x \<Rightarrow> Inr (Num x) | None \<Rightarrow> Inl ValueError)
      | Date d \<Rightarrow> Inl TypeError)"

fun cast_all :: "(cell \<Rightarrow> error + cell) \<Rightarrow> cell list \<Rightarrow> error + cell list" where
  \<comment> \<open>the first cell that cannot be cast raises\<close>
  "cast_all f [] = Inr []"
| "cast_all f (c # cs) =
     (case f c of
        Inl e \<Rightarrow> Inl e
      | Inr v \<Rightarrow> (case cast_all f cs of Inl e \<Rightarrow> Inl e | Inr vs \<Rightarrow> Inr (v # vs)))"

text \<open>
  Floating-point results that may be NaN: \<open>None\<close> is NaN. Arithmetic with NaN is NaN and
  every comparison with NaN is false.
\<close>

type_synonym float = "rat option"

definition fsub :: "float \<Rightarrow> float \<Rightarrow> float" where
  "fsub a b = (case (a, b) of (Some x, Some y) \<Rightarrow> Some (x - y) | _ \<Rightarrow> None)"

definition fadd :: "float \<Rightarrow> float \<Rightarrow> float" where
  "fadd a b = (case (a, b) of (Some x, Some y) \<Rightarrow> Some (x + y) | _ \<Rightarrow> None)"

definition fscale :: "rat \<Rightarrow> float \<Rightarrow> float" where
  "fscale k a = (case a of Some x \<Rightarrow> Some (k * x) | None \<Rightarrow> None)"

definition cell_lt :: "cell \<Rightarrow> float \<Rightarrow> bool" where
  "cell_lt c b = (case (c, b) of (Num v, Some x) \<Rightarrow> v < x | _ \<Rightarrow> False)"

definition cell_gt :: "cell \<Rightarrow> float \<Rightarrow> bool" where
  "cell_gt c b = (case (c, b) of (Num v, Some x) \<Rightarrow> x < v | _ \<Rightarrow> False)"

definition nums :: "cell list \<Rightarrow> rat list" where
  "nums cs = concat (map (\<lambda>c. case c of Num x \<Rightarrow> [x] | _ \<Rightarrow> []) cs)"

definition quantile :: "rat \<Rightarrow> rat list \<Rightarrow> float" where
  \<comment> \<open>\<^verbatim>\<open>Series.quantile(q)\<close> with the default \<^verbatim>\<open>interpolation="linear"\<close>: NaN on no data\<close>
  "quantile q xs =
     (if xs = [] then None
      else let s = sort xs;
               n = length xs;
               h = of_nat (n - 1) * q;
               lo = nat \<lfloor>h\<rfloor>;
               hi = min (lo + 1) (n - 1);
               g = h - of_int \<lfloor>h\<rfloor>
           in Some (s ! lo + (s ! hi - s ! lo) * g))"

section \<open>Schema Normalizer\<close>

definition rename_columns :: "(string \<Rightarrow> string) \<Rightarrow> table \<Rightarrow> table" where
  \<comment> \<open>\<^verbatim>\<open>df.rename(columns=m)\<close>, with \<open>f\<close> the renaming the dictionary \<open>m\<close> gives\<close>
  "rename_columns f t =
     \<lparr>cols = map f (cols t),
      rows = map (\<lambda>r. (fst r, map (\<lambda>kv. (f (fst kv), snd kv)) (snd r))) (rows t)\<rparr>"

definition normalize_header :: "string \<Rightarrow> string" where
  "normalize_header c =
     py_replace CHR ''-'' CHR ''_'' (py_replace CHR '' '' CHR ''_'' (py_lower (py_strip c)))"

definition candidates :: "(string list \<times> string) list" where
  "candidates =
     [([''invoiceno'', ''invoice_no'', ''invoice_number''], ''invoice_no''),
      ([''invoicedate'', ''invoice_date'', ''date''], ''invoice_date''),
      ([''stockcode'', ''stock_code'', ''product_code''], ''stock_code''),
      ([''description'', ''product_description'', ''item_description''], ''description''),
      ([''quantity'', ''qty''], ''quantity''),
      ([''unitprice'', ''unit_price'', ''price''], ''unit_price''),
      ([''customerid'', ''customer_id'', ''cust_id''], ''customer_id''),
      ([''country'', ''market''], ''country'')]"

definition cols_lower :: "string list \<Rightarrow> (string \<times> string) list" where
  \<comment> \<open>the dictionary \<^verbatim>\<open>{c.lower(): c for c in df.columns}\<close>: a later column wins\<close>
  "cols_lower cs = fold (\<lambda>c m. AList.update (py_lower c) c m) cs []"

definition rename_map :: "string list \<Rightarrow> (string \<times> string) list" where
  \<comment> \<open>one loop per canonical name: the first candidate that is a column, then \<^verbatim>\<open>break\<close>\<close>
  "rename_map cs =
     fold (\<lambda>(cands, canonical) m.
             case find (\<lambda>c. map_of (cols_lower cs) c \<noteq> None) cands of
               Some c \<Rightarrow> AList.update (the (map_of (cols_lower cs) c)) canonical m
             | None \<Rightarrow> m)
          candidates []"

definition apply_map :: "(string \<times> string) list \<Rightarrow> string \<Rightarrow> string" where
  "apply_map m k = (case map_of m k of Some v \<Rightarrow> v | None \<Rightarrow> k)"

definition standardize_column_names :: "table \<Rightarrow> table" where
  "standardize_column_names df =
     (let df1 = rename_columns normalize_header df
      in rename_columns (apply_map (rename_map (cols df1))) df1)"

section \<open>Type Coercer and Validity Filter\<close>

definition convert_dtypes :: "env \<Rightarrow> table \<Rightarrow> table" where
  "convert_dtypes E df =
     (let df1 = (if ''invoice_date'' \<in> set (cols df)
                 then map_col ''invoice_date'' (to_datetime E) df else df);
          df2 = (if ''quantity'' \<in> set (cols df1)
                 then map_col ''quantity'' (to_numeric E) df1 else df1);
          df3 = (if ''unit_price'' \<in> set (cols df2)
                 then map_col ''unit_price'' (to_numeric E) df2 else df2)
      in df3)"

definition dropna :: "string list \<Rightarrow> table \<Rightarrow> table" where
  \<comment> \<open>\<^verbatim>\<open>df.dropna(subset=cs)\<close>\<close>
  "dropna cs df = df\<lparr>rows := filter (\<lambda>r. list_all (\<lambda>c. cell_of (snd r) c \<noteq> NA) cs) (rows df)\<rparr>"

definition drop_invalid_invoices :: "table \<Rightarrow> table" where
  "drop_invalid_invoices df =
     (let cols_to_check =
            (if ''invoice_no'' \<in> set (cols df) then [''invoice_no''] else []) @
            (if ''invoice_date'' \<in> set (cols df) then [''invoice_date''] else [])
      in if cols_to_check \<noteq> [] then dropna cols_to_check df else df)"

section \<open>Missing-Value Handler and Categorical Normalizer\<close>

definition fillna :: "cell \<Rightarrow> cell \<Rightarrow> cell" where
  "fillna v c = (if c = NA then v else c)"

definition handle_missing_values :: "env \<Rightarrow> table \<Rightarrow> error + table" where
  "handle_missing_values E df =
     (let df1 = (if ''description'' \<in> set (cols df)
                 then map_col ''description'' (\<lambda>c. Str (py_strip (astype_str E c)))
                        (map_col ''description'' (fillna (Str ''Unknown'')) df)
                 else df)
      in if ''customer_id'' \<in> set (cols df1)
         then (case cast_all (astype_float64 E) (map snd (column df1 ''customer_id'')) of
                 Inl e \<Rightarrow> Inl e
               | Inr vs \<Rightarrow> Inr (assign ''customer_id'' vs df1))
         else Inr df1)"

definition country_map :: "(string \<times> string) list" where
  "country_map =
     [(''Uk'', ''United Kingdom''),
      (''United Kingdom'', ''United Kingdom''),
      (''Eire'', ''Ireland'')]"

definition normalize_country :: "env \<Rightarrow> cell \<Rightarrow> cell" where
  \<comment> \<open>\<^verbatim>\<open>.astype(str).str.strip().str.title()\<close>, then \<^verbatim>\<open>.replace(country_map)\<close>\<close>
  "normalize_country E c = Str (apply_map country_map (py_title (py_strip (astype_str E c))))"

definition normalize_categorical :: "env \<Rightarrow> table \<Rightarrow> table" where
  "normalize_categorical E df =
     (let df1 = (if ''description'' \<in> set (cols df)
                 then map_col ''description'' (\<lambda>c. Str (py_strip (astype_str E c))) df
                 else df)
      in if ''country'' \<in> set (cols df1)
         then map_col ''country'' (normalize_country E) df1
         else df1)"

section \<open>Derived-Column Calculator\<close>

definition cell_mult :: "cell \<Rightarrow> cell \<Rightarrow> cell" where
  \<comment> \<open>the product of two numeric cells; missing if either is missing\<close>
  "cell_mult a b = (case (a, b) of (Num x, Num y) \<Rightarrow> Num (x * y) | _ \<Rightarrow> NA)"

definition dt_year :: "cell \<Rightarrow> cell" where
  "dt_year c = (case c of Date ts \<Rightarrow> Num (of_int (ts_year ts)) | _ \<Rightarrow> NA)"

definition dt_month :: "cell \<Rightarrow> cell" where
  "dt_month c = (case c of Date ts \<Rightarrow> Num (of_int (ts_month ts)) | _ \<Rightarrow> NA)"

definition add_derived_columns :: "table \<Rightarrow> table" where
  "add_derived_columns df =
     (let df1 = (if ''quantity'' \<in> set (cols df) \<and> ''unit_price'' \<in> set (cols df)
                 then assign ''total_value''
                        (map (\<lambda>r. cell_mult (cell_of (snd r) ''quantity'')
                                             (cell_of (snd r) ''unit_price'')) (rows df)) df
                 else df)
      in if ''invoice_date'' \<in> set (cols df1)
         then (let df2 = assign ''year''
                           (map (\<lambda>r. dt_year (cell_of (snd r) ''invoice_date'')) (rows df1)) df1
               in assign ''month''
                    (map (\<lambda>r. dt_month (cell_of (snd r) ''invoice_date'')) (rows df2)) df2)
         else df1)"

section \<open>Duplicate Detector\<close>

text \<open>
  \<^verbatim>\<open>df.duplicated(keep=False)\<close> marks every row whose values occur in at least two rows;
  \<^verbatim>\<open>df.duplicated()\<close> (keep first) marks a row whose values an earlier row has. Missing
  cells compare equal to each other there, as \<open>NA = NA\<close> does here.
  \<^verbatim>\<open>df.drop_duplicates()\<close> is \<^verbatim>\<open>df[~df.duplicated()]\<close>.
\<close>

definition duplicated_all :: "'a list \<Rightarrow> bool list" where
  "duplicated_all vs = map (\<lambda>v. 2 \<le> count_list vs v) vs"

fun duplicated_first :: "'a list \<Rightarrow> 'a list \<Rightarrow> bool list" where
  "duplicated_first seen [] = []"
| "duplicated_first seen (v # vs) = (v \<in> set seen) # duplicated_first (v # seen) vs"

definition drop_duplicates :: "(nat \<times> row) list \<Rightarrow> (nat \<times> row) list" where
  "drop_duplicates rs = select (map Not (duplicated_first [] (map vals rs))) rs"

definition deduplicate_and_log :: "table \<Rightarrow> table \<times> csv_file list" where
  "deduplicate_and_log df =
     (let duplicates = df\<lparr>rows := select (duplicated_all (map vals (rows df))) (rows df)\<rparr>;
          written = (if \<not> frame_empty duplicates
                     then [(''duplicates_logged.csv'', duplicates)] else [])
      in (df\<lparr>rows := drop_duplicates (rows df)\<rparr>, written))"

definition two_identical_rows :: table where
  "two_identical_rows =
     \<lparr>cols = [''invoice_no'', ''description''],
      rows = [(0, [(''invoice_no'', Str ''536365''), (''description'', Str ''Lantern'')]),
              (1, [(''invoice_no'', Str ''536366''), (''description'', Str ''Mug'')]),
              (2, [(''invoice_no'', Str ''536365''), (''description'', Str ''Lantern'')])]\<rparr>"

text \<open>The survivors of \<open>drop_duplicates\<close>, relative to the values already seen.\<close>

definition dd :: "cell list list \<Rightarrow> (nat \<times> row) list \<Rightarrow> (nat \<times> row) list" where
  "dd seen rs = select (map Not (duplicated_first seen (map vals rs))) rs"

section \<open>Outlier Detector\<close>

definition series_dropna :: "series \<Rightarrow> series" where
  "series_dropna s = filter (\<lambda>p. snd p \<noteq> NA) s"

definition detect_outliers_iqr :: "series \<Rightarrow> (nat \<times> bool) list \<times> float \<times> float" where
  "detect_outliers_iqr s =
     (let q1 = quantile (1 / 4) (nums (map snd s));
          q3 = quantile (3 / 4) (nums (map snd s));
          iqr = fsub q3 q1;
          lower = fsub q1 (fscale (3 / 2) iqr);
          upper = fadd q3 (fscale (3 / 2) iqr);
          m = map (\<lambda>p. (fst p, cell_lt (snd p) lower \<or> cell_gt (snd p) upper)) s
      in (m, lower, upper))"

definition set_by_label :: "(nat \<times> bool) list \<Rightarrow> (nat \<times> bool) list \<Rightarrow> (nat \<times> bool) list" where
  \<comment> \<open>\<^verbatim>\<open>full[m.index] = m\<close>: the entries of \<open>full\<close> whose label is in \<open>m\<close> take the value there\<close>
  "set_by_label full m =
     map (\<lambda>p. case map_of m (fst p) of Some b \<Rightarrow> (fst p, b) | None \<Rightarrow> p) full"

definition outlier_mask :: "table \<Rightarrow> string \<Rightarrow> cell list" where
  "outlier_mask df c =
     (let (m, lower, upper) = detect_outliers_iqr (series_dropna (column df c));
          full_mask = set_by_label (map (\<lambda>r. (fst r, False)) (rows df)) m
      in map (\<lambda>p. Bool (snd p)) full_mask)"

definition any_true :: "string list \<Rightarrow> nat \<times> row \<Rightarrow> bool" where
  \<comment> \<open>one entry of \<^verbatim>\<open>df[cs].any(axis=1)\<close>\<close>
  "any_true cs r = list_ex (\<lambda>c. cell_of (snd r) c = Bool True) cs"

definition flag_and_optionally_remove_outliers :: "table \<Rightarrow> bool \<Rightarrow> table \<times> csv_file list" where
  "flag_and_optionally_remove_outliers df remove =
     (let df1 = (if ''quantity'' \<in> set (cols df)
                 then assign ''is_outlier_quantity'' (outlier_mask df ''quantity'') df else df);
          cols1 = (if ''quantity'' \<in> set (cols df) then [''is_outlier_quantity''] else []);
          df2 = (if ''unit_price'' \<in> set (cols df1)
                 then assign ''is_outlier_unit_price'' (outlier_mask df1 ''unit_price'') df1
                 else df1);
          outlier_cols = cols1 @
            (if ''unit_price'' \<in> set (cols df1) then [''is_outlier_unit_price''] else [])
      in if outlier_cols \<noteq> []
         then (let outliers_df = df2\<lparr>rows := filter (any_true outlier_cols) (rows df2)\<rparr>;
                   written = (if \<not> frame_empty outliers_df
                              then [(''outliers_logged.csv'', outliers_df)] else [])
               in (if remove
                   then df2\<lparr>rows := filter (\<lambda>r. \<not> any_true outlier_cols r) (rows df2)\<rparr>
                   else df2,
                   written))
         else (df2, []))"

section \<open>Summary Builder\<close>

definition group_total :: "(nat \<times> row \<Rightarrow> bool) \<Rightarrow> table \<Rightarrow> rat" where
  \<comment> \<open>the sum of one group of \<^verbatim>\<open>groupby(...)["total_value"].sum()\<close>: missing values are skipped\<close>
  "group_total member df =
     sum_list (nums (map (\<lambda>r. cell_of (snd r) ''total_value'') (filter member (rows df))))"

definition ym_key :: "cell \<times> cell \<Rightarrow> (bool \<times> rat) \<times> (bool \<times> rat)" where
  \<comment> \<open>the order of (year, month) group keys: ascending, a missing part last\<close>
  "ym_key k =
     ((case fst k of Num y \<Rightarrow> (False, y) | _ \<Rightarrow> (True, 0)),
      (case snd k of Num m \<Rightarrow> (False, m) | _ \<Rightarrow> (True, 0)))"

definition year_month :: "nat \<times> row \<Rightarrow> cell \<times> cell" where
  \<comment> \<open>the group key of a row; \<open>add_derived_columns\<close> adds both columns whenever the table
      has \<open>invoice_date\<close>\<close>
  "year_month r = (cell_of (snd r) ''year'', cell_of (snd r) ''month'')"

definition monthly_revenue :: "table \<Rightarrow> table" where
  \<comment> \<open>\<^verbatim>\<open>groupby(["year", "month"], dropna=False)\<close>, the totals, \<^verbatim>\<open>reset_index\<close>, and the
      sort by year and month (a stable sort of groups that are in key order already)\<close>
  "monthly_revenue df =
     (let ks = sort_key ym_key (remdups (map year_month (rows df)));
          totals = map (\<lambda>k. (k, group_total (\<lambda>r. year_month r = k) df)) ks;
          labelled = sort_key (\<lambda>p. ym_key (fst (snd p))) (zip [0..<length totals] totals)
      in \<lparr>cols = [''year'', ''month'', ''total_value''],
          rows = map (\<lambda>(i, (y, m), v).
                        (i, [(''year'', y), (''month'', m), (''total_value'', Num v)]))
                     labelled\<rparr>)"

definition description_of :: "nat \<times> row \<Rightarrow> string option" where
  \<comment> \<open>the group key of a row under \<^verbatim>\<open>groupby("description")\<close>; a missing key is no group\<close>
  "description_of r = (case cell_of (snd r) ''description'' of Str s \<Rightarrow> Some s | _ \<Rightarrow> None)"

definition product_totals :: "table \<Rightarrow> product list" where
  \<comment> \<open>\<^verbatim>\<open>groupby("description")["total_value"].sum().reset_index()\<close>: one row per
      description, in ascending order of the description, labelled from 0\<close>
  "product_totals df =
     (let ks = sort (remdups (concat (map (\<lambda>r. case description_of r of Some s \<Rightarrow> [s]
                                                 | None \<Rightarrow> []) (rows df))));
          totals = map (\<lambda>k. (k, group_total (\<lambda>r. description_of r = Some k) df)) ks
      in zip [0..<length totals] totals)"

definition products_frame :: "product list \<Rightarrow> table" where
  "products_frame ps =
     \<lparr>cols = [''description'', ''total_value''],
      rows = map (\<lambda>(i, d, v). (i, [(''description'', Str d), (''total_value'', Num v)])) ps\<rparr>"

definition top_products :: "env \<Rightarrow> table \<Rightarrow> product list" where
  \<comment> \<open>\<^verbatim>\<open>.sort_values("total_value", ascending=False).head(10)\<close>\<close>
  "top_products E df = take 10 (sort_values_desc E (product_totals df))"

definition unique_customers :: "table \<Rightarrow> cell" where
  "unique_customers df =
     (if ''customer_id'' \<in> set (cols df)
      then Num (of_nat (length (remdups (filter (\<lambda>c. c \<noteq> NA)
                                           (map snd (column df ''customer_id''))))))
      else NA)"

definition avg_order_value :: "table \<Rightarrow> cell" where
  "avg_order_value df =
     (if ''invoice_no'' \<in> set (cols df) \<and> ''total_value'' \<in> set (cols df)
      then (let ks = remdups (filter (\<lambda>c. c \<noteq> NA) (map snd (column df ''invoice_no'')));
                order_values = map (\<lambda>k. group_total (\<lambda>r. cell_of (snd r) ''invoice_no'' = k) df) ks
            in if order_values \<noteq> []
               then Num (sum_list order_values / of_nat (length order_values))
               else NA)
      else NA)"

definition metrics_df :: "table \<Rightarrow> table" where
  "metrics_df df =
     \<lparr>cols = [''metric'', ''value''],
      rows = [(0, [(''metric'', Str ''unique_customers''), (''value'', unique_customers df)]),
              (1, [(''metric'', Str ''average_order_value''), (''value'', avg_order_value df)])]\<rparr>"

definition create_summary_tables :: "env \<Rightarrow> table \<Rightarrow> csv_file list" where
  \<comment> \<open>the CSV files the function writes, in the order it writes them (the figures it
      renders afterwards are not CSV files and are left out)\<close>
  "create_summary_tables E df =
     (if ''total_value'' \<in> set (cols df) \<and> ''invoice_date'' \<in> set (cols df)
      then [(''revenue_by_month.csv'', monthly_revenue df)] else []) @
     (if ''total_value'' \<in> set (cols df) \<and> ''description'' \<in> set (cols df)
      then [(''top10_products_by_sales.csv'', products_frame (top_products E df))] else []) @
     [(''overall_metrics.csv'', metrics_df df)]"

section \<open>The pipeline\<close>

definition clean :: "env \<Rightarrow> table \<Rightarrow> bool \<Rightarrow> error + table \<times> csv_file list" where
  \<comment> \<open>the stages of \<^verbatim>\<open>clean_and_analyze\<close> up to the cleaned table, with the logs written\<close>
  "clean E raw remove_outliers =
     (let df1 = standardize_column_names raw;
          df2 = convert_dtypes E df1;
          df3 = drop_invalid_invoices df2
      in case handle_missing_values E df3 of
           Inl e \<Rightarrow> Inl e
         | Inr df4 \<Rightarrow>
             (let df5 = normalize_categorical E df4;
                  df6 = add_derived_columns df5;
                  (df7, dup_files) = deduplicate_and_log df6;
                  (df8, out_files) = flag_and_optionally_remove_outliers df7 remove_outliers
              in Inr (df8, dup_files @ out_files)))"

definition clean_and_analyze :: "env \<Rightarrow> table \<Rightarrow> bool \<Rightarrow> error + csv_file list" where
  \<comment> \<open>every CSV file a run writes, for the table \<^verbatim>\<open>read_csv\<close> returned\<close>
  "clean_and_analyze E raw remove_outliers =
     (case clean E raw remove_outliers of
        Inl e \<Rightarrow> Inl e
      | Inr (df, logs) \<Rightarrow>
          Inr (logs @ [(''retail_cleaned.csv'', df)] @ create_summary_tables E df))"

section \<open>The outlier rule as the specification words it\<close>




definition column_nums :: "table \<Rightarrow> string \<Rightarrow> rat list" where
  \<comment> \<open>the non-missing numbers of a column\<close>
  "column_nums df c = nums (map (\<lambda>r. cell_of (snd r) c) (rows df))"

definition outside_iqr :: "rat list \<Rightarrow> cell \<Rightarrow> bool" where
  \<comment> \<open>one entry of the mask of \<open>detect_outliers_iqr\<close>, for the numbers \<open>xs\<close> of the series\<close>
  "outside_iqr xs c =
     (let q1 = quantile (1 / 4) xs;
          q3 = quantile (3 / 4) xs;
          iqr = fsub q3 q1;
          lower = fsub q1 (fscale (3 / 2) iqr);
          upper = fadd q3 (fscale (3 / 2) iqr)
      in cell_lt c lower \<or> cell_gt c upper)"

definition outlier_columns :: "string list \<Rightarrow> string list" where
  \<comment> \<open>the flag columns of a table with the columns \<open>cs\<close>\<close>
  "outlier_columns cs =
     (if ''quantity'' \<in> set cs then [''is_outlier_quantity''] else []) @
     (if ''unit_price'' \<in> set cs then [''is_outlier_unit_price''] else [])"

definition flag_row :: "string list \<Rightarrow> rat list \<Rightarrow> rat list \<Rightarrow> row \<Rightarrow> row" where
  \<comment> \<open>a row with its flags, for the numbers \<open>xq\<close> of the quantity column and \<open>xp\<close> of
      the unit price column\<close>
  "flag_row cs xq xp r =
     (let r1 = (if ''quantity'' \<in> set cs
                then AList.update ''is_outlier_quantity''
                       (Bool (outside_iqr xq (cell_of r ''quantity''))) r
                else r)
      in if ''unit_price'' \<in> set cs
         then AList.update ''is_outlier_unit_price''
                (Bool (outside_iqr xp (cell_of r ''unit_price''))) r1
         else r1)"

section \<open>What the descending sort of the product summary guarantees\<close>

definition total_of :: "product \<Rightarrow> rat" where
  "total_of p = snd (snd p)"

definition description :: "product \<Rightarrow> string" where
  "description p = fst (snd p)"

definition sorts_descending :: "env \<Rightarrow> bool" where
  \<comment> \<open>\<^verbatim>\<open>sort_values("total_value", ascending=False)\<close> returns the same rows in
      non-increasing order of the total; the order of rows with equal totals is open\<close>
  "sorts_descending E \<longleftrightarrow>
     (\<forall>ps. mset (sort_values_desc E ps) = mset ps \<and>
           sorted_wrt (\<lambda>a b. total_of b \<le> total_of a) (sort_values_desc E ps))"

section \<open>Example inputs\<close>

text \<open>
  One instance of the library parameters, for running the model: numbers are written
  in decimal digits, two dates are known, and the descending sort is a stable one.
\<close>

fun parse_digits :: "nat \<Rightarrow> string \<Rightarrow> nat option" where
  "parse_digits acc [] = Some acc"
| "parse_digits acc (c # cs) =
     (if 48 \<le> (of_char c :: nat) \<and> (of_char c :: nat) \<le> 57
      then parse_digits (10 * acc + (of_char c - 48)) cs else None)"

definition parse_decimal :: "string \<Rightarrow> rat option" where
  "parse_decimal s = (if s = [] then None else map_option of_nat (parse_digits 0 s))"

definition parse_iso_date :: "cell \<Rightarrow> timestamp option" where
  "parse_iso_date c =
     (case c of
        Str s \<Rightarrow> map_of [(''2010-12-01'', Timestamp 2010 12 1 0),
                          (''2011-01-04'', Timestamp 2011 1 4 0)] s
      | _ \<Rightarrow> None)"

definition stable_sort_desc :: "product list \<Rightarrow> product list" where
  "stable_sort_desc ps = sort_key (\<lambda>p. - snd (snd p)) ps"

definition example_env :: env where
  "example_env =
     \<lparr>parse_datetime = parse_iso_date,
      parse_numeric = parse_decimal,
      parse_float = parse_decimal,
      str_of_cell = (\<lambda>c. case c of Bool True \<Rightarrow> ''True'' | Bool False \<Rightarrow> ''False'' | _ \<Rightarrow> ''''),
      sort_values_desc = stable_sort_desc\<rparr>"

definition countries :: table where
  "countries =
     \<lparr>cols = [''invoice_no'', ''country''],
      rows = [(0, [(''invoice_no'', Str ''536365''), (''country'', Str ''UK'')]),
              (1, [(''invoice_no'', Str ''536366''), (''country'', Str ''United Kingdom'')]),
              (2, [(''invoice_no'', Str ''536367''), (''country'', Str '' eire '')]),
              (3, [(''invoice_no'', Str ''536368''), (''country'', Str ''france'')]),
              (4, [(''invoice_no'', Str ''536369''), (''country'', NA)])]\<rparr>"

definition raw_sales :: table where
  "raw_sales =
     \<lparr>cols = [''InvoiceNo'', ''InvoiceDate'', ''Description'', ''Quantity'', ''UnitPrice'',
              ''CustomerID'', ''Country''],
      rows =
        [(0, [(''InvoiceNo'', Str ''536365''), (''InvoiceDate'', Str ''2010-12-01''),
              (''Description'', Str '' Lantern ''), (''Quantity'', Str ''6''),
              (''UnitPrice'', Num 3), (''CustomerID'', Num 17850), (''Country'', Str ''UK'')]),
         (1, [(''InvoiceNo'', NA), (''InvoiceDate'', Str ''2010-12-01''),
              (''Description'', Str ''Mug''), (''Quantity'', Str ''2''),
              (''UnitPrice'', Num 5), (''CustomerID'', Num 17850), (''Country'', Str ''UK'')]),
         (2, [(''InvoiceNo'', Str ''536366''), (''InvoiceDate'', Str ''not a date''),
              (''Description'', Str ''Mug''), (''Quantity'', Str ''2''),
              (''UnitPrice'', Num 5), (''CustomerID'', NA), (''Country'', Str ''eire'')]),
         (3, [(''InvoiceNo'', Str ''536367''), (''InvoiceDate'', Str ''2011-01-04''),
              (''Description'', NA), (''Quantity'', Str ''many''),
              (''UnitPrice'', Num 4), (''CustomerID'', Num 13047), (''Country'', NA)]),
         (4, [(''InvoiceNo'', Str ''536365''), (''InvoiceDate'', Str ''2010-12-01''),
              (''Description'', Str ''Lantern''), (''Quantity'', Str ''6''),
              (''UnitPrice'', Num 3), (''CustomerID'', Num 17850), (''Country'', Str ''uk'')])]\<rparr>"


definition no_invoice_columns :: table where
  "no_invoice_columns =
     \<lparr>cols = [''description'', ''quantity''],
      rows = [(0, [(''description'', Str ''Lantern''), (''quantity'', NA)]),
              (1, [(''description'', NA), (''quantity'', Num 2)])]\<rparr>"

definition cleaned_sales :: table where
  "cleaned_sales =
     \<lparr>cols = [''invoice_no'', ''invoice_date'', ''description'', ''quantity'', ''unit_price'',
              ''customer_id'', ''country'', ''total_value'', ''year'', ''month'',
              ''is_outlier_quantity'', ''is_outlier_unit_price''],
      rows =
        [(0, [(''invoice_no'', Str ''536365''), (''invoice_date'', Date (Timestamp 2010 12 1 0)),
              (''description'', Str ''Lantern''), (''quantity'', Num 6), (''unit_price'', Num 3),
              (''customer_id'', Num 17850), (''country'', Str ''United Kingdom''),
              (''total_value'', Num 18), (''year'', Num 2010), (''month'', Num 12),
              (''is_outlier_quantity'', Bool False), (''is_outlier_unit_price'', Bool False)]),
         (3, [(''invoice_no'', Str ''536367''), (''invoice_date'', Date (Timestamp 2011 1 4 0)),
              (''description'', Str ''Unknown''), (''quantity'', NA), (''unit_price'', Num 4),
              (''customer_id'', Num 13047), (''country'', Str ''Nan''),
              (''total_value'', NA), (''year'', Num 2011), (''month'', Num 1),
              (''is_outlier_quantity'', Bool False), (''is_outlier_unit_price'', Bool False)])]\<rparr>"

definition quantities :: table where
  "quantities =
     \<lparr>cols = [''invoice_no'', ''quantity''],
      rows = [(0, [(''invoice_no'', Str ''A''), (''quantity'', Num 1)]),
              (1, [(''invoice_no'', Str ''B''), (''quantity'', Num 2)]),
              (2, [(''invoice_no'', Str ''C''), (''quantity'', Num 100)]),
              (4, [(''invoice_no'', Str ''D''), (''quantity'', Num 3)]),
              (5, [(''invoice_no'', Str ''E''), (''quantity'', NA)]),
              (7, [(''invoice_no'', Str ''F''), (''quantity'', Num 3)]),
              (8, [(''invoice_no'', Str ''G''), (''quantity'', Num 2)]),
              (9, [(''invoice_no'', Str ''H''), (''quantity'', Num 3)]),
              (11, [(''invoice_no'', Str ''I''), (''quantity'', Num 4)]),
              (12, [(''invoice_no'', Str ''J''), (''quantity'', Num 4)])]\<rparr>"

definition quantities_reversed :: table where
  "quantities_reversed = quantities\<lparr>rows := rev (rows quantities)\<rparr>"

definition raw_all_invalid :: table where
  "raw_all_invalid =
     \<lparr>cols = [''InvoiceNo'', ''InvoiceDate'', ''Description'', ''Quantity'', ''UnitPrice''],
      rows = [(0, [(''InvoiceNo'', NA), (''InvoiceDate'', Str ''2010-12-01''),
                   (''Description'', Str ''Mug''), (''Quantity'', Num 2),
                   (''UnitPrice'', Num 5)])]\<rparr>"

definition tie_reversing_env :: env where
  \<comment> \<open>as \<open>example_env\<close>, with a descending sort that puts equal totals in reverse order\<close>
  "tie_reversing_env =
     example_env\<lparr>sort_values_desc := (\<lambda>ps. rev (sort_key (\<lambda>p. snd (snd p)) ps))\<rparr>"

definition tied_products :: table where
  "tied_products =
     \<lparr>cols = [''description'', ''total_value''],
      rows = [(0, [(''description'', Str ''Bell''), (''total_value'', Num 5)]),
              (1, [(''description'', Str ''Apron''), (''total_value'', Num 5)]),
              (2, [(''description'', Str ''Clock''), (''total_value'', Num 7)])]\<rparr>"

definition product_sales :: table where
  \<comment> \<open>twelve products \<open>A\<close> to \<open>L\<close>, with the totals 0, 1, 2, 3, 4, 0, 1, ...\<close>
  "product_sales =
     \<lparr>cols = [''description'', ''total_value''],
      rows = map (\<lambda>i. (i, [(''description'', Str [char_of (65 + i)]),
                           (''total_value'', Num (of_nat (i mod 5)))])) [0..<12]\<rparr>"

section \<open>Rows, columns and what a stage leaves alone\<close>

lemma cell_of_map_entry:
  "cell_of (AList.map_entry c f r) k =
     (if k = c then (case map_of r c of Some v \<Rightarrow> f v | None \<Rightarrow> NA) else cell_of r k)"
  by (simp add: cell_of_def map_of_map_entry split: option.splits)

lemma cell_of_update:
  "cell_of (AList.update c v r) k = (if k = c then v else cell_of r k)"
  by (simp add: cell_of_def update_conv')

lemma keys_map_entry: "map fst (AList.map_entry c f r) = map fst r"
  by (induction r) auto


lemma cell_of_present:
  "c \<in> set (map fst r) \<Longrightarrow> map_of r c = Some (cell_of r c)"
  by (cases "map_of r c") (auto simp: cell_of_def map_of_eq_None_iff)

lemma cols_map_col [simp]: "cols (map_col c f t) = cols t"
  by (simp add: map_col_def)

lemma rows_map_col:
  "rows (map_col c f t) = map (\<lambda>r. (fst r, AList.map_entry c f (snd r))) (rows t)"
  by (simp add: map_col_def)

lemma labels_map_col [simp]: "map fst (rows (map_col c f t)) = map fst (rows t)"
  by (simp add: rows_map_col comp_def)

lemma cols_assign: "cols (assign c vs t) = (if c \<in> set (cols t) then cols t else cols t @ [c])"
  by (simp add: assign_def)

lemma rows_assign_map:
  "rows (assign c (map g (rows t)) t) =
     map (\<lambda>r. (fst r, AList.update c (g r) (snd r))) (rows t)"
  by (simp add: assign_def zip_map2 zip_same_conv_map comp_def case_prod_beta)

lemma keyed_map_col: "keyed t \<Longrightarrow> keyed (map_col c f t)"
  by (simp add: keyed_def rows_map_col list_all_iff keys_map_entry)


lemma keyed_filter: "keyed t \<Longrightarrow> keyed (t\<lparr>rows := filter P (rows t)\<rparr>)"
  by (simp add: keyed_def list_all_iff)

lemma keyed_cell_map_col:
  assumes "keyed t" and "c \<in> set (cols t)"
  shows "map (\<lambda>r. cell_of (snd r) c) (rows (map_col c f t)) =
           map (\<lambda>r. f (cell_of (snd r) c)) (rows t)"
proof -
  have "cell_of (AList.map_entry c f (snd r)) c = f (cell_of (snd r) c)"
    if "r \<in> set (rows t)" for r
  proof -
    from that assms have "c \<in> set (map fst (snd r))"
      by (simp add: keyed_def list_all_iff)
    then show ?thesis
      by (simp add: cell_of_map_entry cell_of_present)
  qed
  then show ?thesis
    by (simp add: rows_map_col comp_def)
qed

lemma other_cell_map_col:
  "k \<noteq> c \<Longrightarrow> map (\<lambda>r. cell_of (snd r) k) (rows (map_col c f t)) =
                 map (\<lambda>r. cell_of (snd r) k) (rows t)"
  by (simp add: rows_map_col comp_def cell_of_map_entry)

text \<open>\<open>col_all P k t\<close>: every row of \<open>t\<close> has a cell that satisfies \<open>P\<close> in column \<open>k\<close>.\<close>

lemma col_all_map_col:
  "k \<noteq> c \<Longrightarrow> col_all P k t \<Longrightarrow> col_all P k (map_col c f t)"
  by (auto simp: col_all_def list_all_iff rows_map_col cell_of_map_entry)

lemma col_all_assign:
  "k \<noteq> c \<Longrightarrow> col_all P k t \<Longrightarrow> col_all P k (assign c vs t)"
  by (auto simp: col_all_def list_all_iff assign_def cell_of_update dest!: set_zip_leftD)

lemma col_all_subset:
  "set (rows t') \<subseteq> set (rows t) \<Longrightarrow> col_all P k t \<Longrightarrow> col_all P k t'"
  by (auto simp: col_all_def list_all_iff)

section \<open>Properties of the Duplicate Detector\<close>

lemma select_Cons:
  "select (b # bs) (x # xs) = (if b then x # select bs xs else select bs xs)"
  by (simp add: select_def)

lemma select_Nil [simp]: "select bs [] = []" "select [] xs = []"
  by (simp_all add: select_def)

lemma select_map_filter:
  "select (map P xs) xs = filter P xs"
  by (induction xs) (simp_all add: select_Cons)

lemma count_list_length_filter:
  "count_list xs v = length (filter (\<lambda>x. x = v) xs)"
  by (induction xs) simp_all

lemma duplicates_log_filter:
  "select (duplicated_all (map vals rs)) rs =
     filter (\<lambda>r. 2 \<le> length (filter (\<lambda>r'. vals r' = vals r) rs)) rs"
proof -
  have "count_list (map vals rs) v = length (filter (\<lambda>r'. vals r' = v) rs)" for v
    by (simp add: count_list_length_filter filter_map comp_def)
  then show ?thesis
    by (simp add: duplicated_all_def select_map_filter comp_def)
qed

lemma dd_Nil [simp]: "dd seen [] = []"
  by (simp add: dd_def)

lemma dd_Cons:
  "dd seen (r # rs) =
     (if vals r \<in> set seen then dd (vals r # seen) rs else r # dd (vals r # seen) rs)"
  by (simp add: dd_def select_Cons)

lemma dd_fresh: "vals x \<in> set seen \<Longrightarrow> x \<notin> set (dd seen rs)"
proof (induction rs arbitrary: seen)
  case Nil
  then show ?case by simp
next
  case (Cons r rs)
  from Cons.prems have "x \<notin> set (dd (vals r # seen) rs)"
    by (intro Cons.IH) simp
  with Cons.prems show ?case
    by (auto simp: dd_Cons)
qed

lemma dd_distinct: "distinct (map vals (dd seen rs))"
proof (induction rs arbitrary: seen)
  case Nil
  then show ?case by simp
next
  case (Cons r rs)
  have "vals r \<notin> vals ` set (dd (vals r # seen) rs)"
    using dd_fresh [of _ "vals r # seen" rs] by force
  with Cons.IH [of "vals r # seen"] show ?case
    by (simp add: dd_Cons)
qed

lemma dd_values: "set (map vals (dd seen rs)) = set (map vals rs) - set seen"
  by (induction rs arbitrary: seen) (auto simp: dd_Cons)

lemma dd_nths:
  "dd seen rs =
     nths rs {k. k < length rs \<and> vals (rs ! k) \<notin> set seen \<and>
                 (\<forall>j<k. vals (rs ! j) \<noteq> vals (rs ! k))}"
proof (induction rs arbitrary: seen)
  case Nil
  then show ?case by simp
next
  case (Cons r rs)
  let ?A = "{k. k < length (r # rs) \<and> vals ((r # rs) ! k) \<notin> set seen \<and>
                (\<forall>j<k. vals ((r # rs) ! j) \<noteq> vals ((r # rs) ! k))}"
  have shift: "{j. Suc j \<in> ?A} =
      {k. k < length rs \<and> vals (rs ! k) \<notin> set (vals r # seen) \<and>
          (\<forall>j<k. vals (rs ! j) \<noteq> vals (rs ! k))}"
    by (auto simp: All_less_Suc2)
  have zero: "0 \<in> ?A \<longleftrightarrow> vals r \<notin> set seen"
    by simp
  show ?case
    unfolding nths_Cons [of r rs ?A] shift zero
    using Cons.IH [of "vals r # seen"]
    by (simp add: dd_Cons)
qed

lemma dd_subseq: "subseq (dd seen rs) rs"
  by (induction rs arbitrary: seen) (auto simp: dd_Cons)

lemma dd_id:
  "distinct (map vals rs) \<Longrightarrow> set (map vals rs) \<inter> set seen = {} \<Longrightarrow> dd seen rs = rs"
  by (induction rs arbitrary: seen) (auto simp: dd_Cons)

lemma drop_duplicates_dd: "drop_duplicates rs = dd [] rs"
  by (simp add: drop_duplicates_def dd_def)

lemma duplicated_all_distinct:
  "distinct (map vals rs) \<Longrightarrow> select (duplicated_all (map vals rs)) rs = []"
proof -
  assume d: "distinct (map vals rs)"
  have "length (filter (\<lambda>r'. vals r' = vals r) rs) \<le> 1" for r
  proof -
    have "length (filter (\<lambda>r'. vals r' = vals r) rs) = count_list (map vals rs) (vals r)"
      by (simp add: count_list_length_filter filter_map comp_def)
    also have "\<dots> \<le> 1"
      using d by (induction rs) (auto simp: count_list_0_iff)
    finally show ?thesis .
  qed
  then have "\<not> 2 \<le> length (filter (\<lambda>r'. vals r' = vals r) rs)" for r
    by (simp add: not_le less_Suc_eq_le numeral_2_eq_2)
  then show ?thesis
    by (simp add: duplicates_log_filter)
qed

text \<open>
  C3. The duplicate log holds exactly the rows of the input whose values occur in at
  least two rows of the input (first occurrences included), and the file is written when
  that frame is not empty. The table returned keeps exactly the rows that no earlier row
  equals, in their order: one row per group of equal rows, its first.
\<close>

theorem deduplicate_and_log_spec:
  "snd (deduplicate_and_log df) =
     (let logged = filter (\<lambda>r. 2 \<le> length (filter (\<lambda>r'. vals r' = vals r) (rows df))) (rows df)
      in if cols df = [] \<or> logged = [] then []
         else [(''duplicates_logged.csv'', df\<lparr>rows := logged\<rparr>)]) \<and>
   rows (fst (deduplicate_and_log df)) =
     nths (rows df) {k. k < length (rows df) \<and>
                        (\<forall>j<k. vals (rows df ! j) \<noteq> vals (rows df ! k))} \<and>
   cols (fst (deduplicate_and_log df)) = cols df \<and>
   subseq (rows (fst (deduplicate_and_log df))) (rows df) \<and>
   distinct (map vals (rows (fst (deduplicate_and_log df)))) \<and>
   set (map vals (rows (fst (deduplicate_and_log df)))) = set (map vals (rows df))"
proof -
  have out: "rows (fst (deduplicate_and_log df)) = dd [] (rows df)"
    by (simp add: deduplicate_and_log_def Let_def drop_duplicates_dd)
  have "snd (deduplicate_and_log df) =
     (let logged = filter (\<lambda>r. 2 \<le> length (filter (\<lambda>r'. vals r' = vals r) (rows df))) (rows df)
      in if cols df = [] \<or> logged = [] then []
         else [(''duplicates_logged.csv'', df\<lparr>rows := logged\<rparr>)])"
    by (simp add: deduplicate_and_log_def Let_def frame_empty_def duplicates_log_filter)
  moreover have "rows (fst (deduplicate_and_log df)) =
     nths (rows df) {k. k < length (rows df) \<and>
                        (\<forall>j<k. vals (rows df ! j) \<noteq> vals (rows df ! k))}"
    unfolding out using dd_nths [of "[]" "rows df"] by simp
  moreover have "cols (fst (deduplicate_and_log df)) = cols df"
    by (simp add: deduplicate_and_log_def Let_def)
  moreover have "subseq (rows (fst (deduplicate_and_log df))) (rows df)"
    unfolding out by (rule dd_subseq)
  moreover have "distinct (map vals (rows (fst (deduplicate_and_log df))))"
    unfolding out by (rule dd_distinct)
  moreover have "set (map vals (rows (fst (deduplicate_and_log df)))) = set (map vals (rows df))"
    unfolding out using dd_values [of "[]" "rows df"] by simp
  ultimately show ?thesis by blast
qed

theorem deduplicate_and_log_witness:
  "rows (fst (deduplicate_and_log two_identical_rows)) =
     [(0, [(''invoice_no'', Str ''536365''), (''description'', Str ''Lantern'')]),
      (1, [(''invoice_no'', Str ''536366''), (''description'', Str ''Mug'')])] \<and>
   map (\<lambda>f. (fst f, rows (snd f))) (snd (deduplicate_and_log two_identical_rows)) =
     [(''duplicates_logged.csv'',
       [(0, [(''invoice_no'', Str ''536365''), (''description'', Str ''Lantern'')]),
        (2, [(''invoice_no'', Str ''536365''), (''description'', Str ''Lantern'')])])]"
  using deduplicate_and_log_spec [of two_identical_rows]
  by (simp add: two_identical_rows_def deduplicate_and_log_def drop_duplicates_def
      duplicated_all_def select_def vals_def frame_empty_def Let_def)

text \<open>
  C7. Running the Duplicate Detector on its own output returns that table unchanged and
  writes no duplicate log.
\<close>

theorem deduplicate_idempotent:
  "deduplicate_and_log (fst (deduplicate_and_log df)) = (fst (deduplicate_and_log df), [])"
proof -
  let ?out = "fst (deduplicate_and_log df)"
  have out: "rows ?out = dd [] (rows df)"
    by (simp add: deduplicate_and_log_def Let_def drop_duplicates_dd)
  have d: "distinct (map vals (rows ?out))"
    unfolding out by (rule dd_distinct)
  have keep: "drop_duplicates (rows ?out) = rows ?out"
    using d by (simp add: drop_duplicates_dd dd_id)
  have none: "select (duplicated_all (map vals (rows ?out))) (rows ?out) = []"
    using d by (rule duplicated_all_distinct)
  show ?thesis
    unfolding deduplicate_and_log_def [of ?out] Let_def keep none
    by (simp add: frame_empty_def)
qed

section \<open>Properties of the stages before the Duplicate Detector\<close>



lemma cols_convert_dtypes [simp]: "cols (convert_dtypes E df) = cols df"
  by (simp add: convert_dtypes_def Let_def)



lemma cols_drop_invalid [simp]: "cols (drop_invalid_invoices df) = cols df"
  by (simp add: drop_invalid_invoices_def dropna_def Let_def)

lemma rows_drop_invalid:
  "rows (drop_invalid_invoices df) =
     filter (\<lambda>r. (''invoice_no'' \<in> set (cols df) \<longrightarrow> cell_of (snd r) ''invoice_no'' \<noteq> NA) \<and>
                 (''invoice_date'' \<in> set (cols df) \<longrightarrow> cell_of (snd r) ''invoice_date'' \<noteq> NA))
            (rows df)"
  by (simp add: drop_invalid_invoices_def dropna_def Let_def)


lemma drop_invalid_absent:
  "''invoice_no'' \<notin> set (cols df) \<Longrightarrow> ''invoice_date'' \<notin> set (cols df) \<Longrightarrow>
     drop_invalid_invoices df = df"
  by (simp add: drop_invalid_invoices_def)

lemma col_all_drop_invalid:
  "k \<in> set (cols df) \<Longrightarrow> k = ''invoice_no'' \<or> k = ''invoice_date'' \<Longrightarrow>
     col_all (\<lambda>c. c \<noteq> NA) k (drop_invalid_invoices df)"
  by (auto simp: col_all_def list_all_iff rows_drop_invalid)

lemma handle_missing_cases:
  assumes "handle_missing_values E df = Inr df'"
  obtains vs where
    "df' = assign ''customer_id'' vs
             (if ''description'' \<in> set (cols df)
              then map_col ''description'' (\<lambda>c. Str (py_strip (astype_str E c)))
                     (map_col ''description'' (fillna (Str ''Unknown'')) df)
              else df)"
    and "''customer_id'' \<in> set (cols df)"
  | "df' = (if ''description'' \<in> set (cols df)
              then map_col ''description'' (\<lambda>c. Str (py_strip (astype_str E c)))
                     (map_col ''description'' (fillna (Str ''Unknown'')) df)
              else df)"
    and "''customer_id'' \<notin> set (cols df)"
  using assms
  by (auto simp: handle_missing_values_def Let_def split: if_splits sum.splits)



lemma col_all_handle_missing:
  "handle_missing_values E df = Inr df' \<Longrightarrow> k \<noteq> ''description'' \<Longrightarrow> k \<noteq> ''customer_id'' \<Longrightarrow>
     col_all P k df \<Longrightarrow> col_all P k df'"
  by (erule handle_missing_cases) (auto simp: col_all_assign col_all_map_col)

lemma cols_normalize_categorical [simp]: "cols (normalize_categorical E df) = cols df"
  by (simp add: normalize_categorical_def Let_def)

lemma col_all_normalize_categorical:
  "k \<noteq> ''description'' \<Longrightarrow> k \<noteq> ''country'' \<Longrightarrow>
     col_all P k df \<Longrightarrow> col_all P k (normalize_categorical E df)"
  by (simp add: normalize_categorical_def Let_def col_all_map_col)

lemma country_normalize_categorical:
  assumes "keyed df" and "''country'' \<in> set (cols df)"
  shows "map (\<lambda>r. cell_of (snd r) ''country'') (rows (normalize_categorical E df)) =
           map (\<lambda>r. normalize_country E (cell_of (snd r) ''country'')) (rows df)"
proof (cases "''description'' \<in> set (cols df)")
  case True
  let ?df1 = "map_col ''description'' (\<lambda>c. Str (py_strip (astype_str E c))) df"
  have k: "keyed ?df1" and c: "''country'' \<in> set (cols ?df1)"
    using assms by (simp_all add: keyed_map_col)
  have same: "map (\<lambda>r. cell_of (snd r) ''country'') (rows ?df1) =
                map (\<lambda>r. cell_of (snd r) ''country'') (rows df)"
    by (simp add: other_cell_map_col)
  have "normalize_categorical E df = map_col ''country'' (normalize_country E) ?df1"
    using True assms(2) by (simp add: normalize_categorical_def Let_def)
  then have "map (\<lambda>r. cell_of (snd r) ''country'') (rows (normalize_categorical E df)) =
          map (\<lambda>r. normalize_country E (cell_of (snd r) ''country'')) (rows ?df1)"
    using keyed_cell_map_col [OF k c, of "normalize_country E"] by simp
  also have "\<dots> = map (normalize_country E) (map (\<lambda>r. cell_of (snd r) ''country'') (rows ?df1))"
    by (simp add: comp_def)
  also have "\<dots> = map (\<lambda>r. normalize_country E (cell_of (snd r) ''country'')) (rows df)"
    unfolding same by (simp add: comp_def)
  finally show ?thesis .
next
  case False
  then have "normalize_categorical E df = map_col ''country'' (normalize_country E) df"
    using assms(2) by (simp add: normalize_categorical_def Let_def)
  then show ?thesis
    using keyed_cell_map_col [OF assms, of "normalize_country E"] by simp
qed

lemma col_all_add_derived:
  "k \<noteq> ''total_value'' \<Longrightarrow> k \<noteq> ''year'' \<Longrightarrow> k \<noteq> ''month'' \<Longrightarrow>
     col_all P k df \<Longrightarrow> col_all P k (add_derived_columns df)"
  by (simp add: add_derived_columns_def Let_def col_all_assign)

lemma col_all_deduplicate:
  "col_all P k df \<Longrightarrow> col_all P k (fst (deduplicate_and_log df))"
proof -
  have "set (rows (fst (deduplicate_and_log df))) \<subseteq> set (rows df)"
    by (simp add: deduplicate_and_log_def Let_def drop_duplicates_def select_def)
       (auto dest!: set_zip_rightD)
  then show "col_all P k df \<Longrightarrow> col_all P k (fst (deduplicate_and_log df))"
    by (rule col_all_subset)
qed

lemma col_all_flag:
  assumes "k \<noteq> ''is_outlier_quantity''" and "k \<noteq> ''is_outlier_unit_price''"
    and "col_all P k df"
  shows "col_all P k (fst (flag_and_optionally_remove_outliers df remove))"
proof -
  let ?df1 = "if ''quantity'' \<in> set (cols df)
              then assign ''is_outlier_quantity'' (outlier_mask df ''quantity'') df else df"
  let ?df2 = "if ''unit_price'' \<in> set (cols ?df1)
              then assign ''is_outlier_unit_price'' (outlier_mask ?df1 ''unit_price'') ?df1
              else ?df1"
  have 2: "col_all P k ?df2"
    using assms by (simp add: col_all_assign)
  have "col_all P k (?df2\<lparr>rows := filter Q (rows ?df2)\<rparr>)" for Q
    using 2 by (rule col_all_subset [rotated]) simp
  with 2 show ?thesis
    by (simp add: flag_and_optionally_remove_outliers_def Let_def)
qed

lemma clean_stages:
  assumes "clean E raw remove = Inr (out, files)"
  obtains df4 where
    "handle_missing_values E
       (drop_invalid_invoices (convert_dtypes E (standardize_column_names raw))) = Inr df4"
    and "out = fst (flag_and_optionally_remove_outliers
                 (fst (deduplicate_and_log (add_derived_columns (normalize_categorical E df4))))
                 remove)"
  using assms
  by (auto simp: clean_def Let_def split: sum.splits prod.splits)

section \<open>Validity Filter, Type Coercer and Categorical Normalizer: the claims\<close>

lemma clean_raw_sales:
  "\<not> isl (clean example_env raw_sales False) \<and>
   fst (projr (clean example_env raw_sales False)) = cleaned_sales"
  by code_simp

lemma standardized_raw_sales:
  "cols (standardize_column_names raw_sales) =
     [''invoice_no'', ''invoice_date'', ''description'', ''quantity'', ''unit_price'',
      ''customer_id'', ''country''] \<and>
   keyed (standardize_column_names raw_sales) \<and>
   map fst (rows (standardize_column_names raw_sales)) = [0, 1, 2, 3, 4]"
  by code_simp

lemma col_all_cleaned:
  assumes "clean E raw remove = Inr res"
    and "k \<notin> {''description'', ''customer_id'', ''country'', ''total_value'', ''year'', ''month'',
              ''is_outlier_quantity'', ''is_outlier_unit_price''}"
    and "col_all P k (drop_invalid_invoices (convert_dtypes E (standardize_column_names raw)))"
  shows "col_all P k (fst res)"
proof -
  obtain out files where res: "res = (out, files)"
    by (cases res)
  from assms(1) res obtain df4 where
    h: "handle_missing_values E
          (drop_invalid_invoices (convert_dtypes E (standardize_column_names raw))) = Inr df4"
    and out: "out = fst (flag_and_optionally_remove_outliers
                 (fst (deduplicate_and_log (add_derived_columns (normalize_categorical E df4))))
                 remove)"
    by (auto elim: clean_stages)
  from h assms(2,3) have "col_all P k df4"
    by (intro col_all_handle_missing [OF h]) simp_all
  with assms(2) have "col_all P k (normalize_categorical E df4)"
    by (intro col_all_normalize_categorical) simp_all
  with assms(2) have "col_all P k (add_derived_columns (normalize_categorical E df4))"
    by (intro col_all_add_derived) simp_all
  then have "col_all P k (fst (deduplicate_and_log (add_derived_columns (normalize_categorical E df4))))"
    by (rule col_all_deduplicate)
  with assms(2) have "col_all P k out"
    unfolding out by (intro col_all_flag) simp_all
  then show ?thesis
    by (simp add: res)
qed

text \<open>
  C1. The Validity Filter keeps exactly the rows whose \<open>invoice_no\<close> and \<open>invoice_date\<close>
  are not missing, for whichever of the two columns the table has; with neither column
  it returns the table as it is. No later stage writes to these two columns, so in the
  cleaned table of a run every row has them non-missing, whenever the standardized
  source has the column.
\<close>

theorem validity_filter_spec:
  "rows (drop_invalid_invoices df) =
     filter (\<lambda>r. (''invoice_no'' \<in> set (cols df) \<longrightarrow> cell_of (snd r) ''invoice_no'' \<noteq> NA) \<and>
                 (''invoice_date'' \<in> set (cols df) \<longrightarrow> cell_of (snd r) ''invoice_date'' \<noteq> NA))
            (rows df) \<and>
   cols (drop_invalid_invoices df) = cols df \<and>
   (''invoice_no'' \<notin> set (cols df) \<and> ''invoice_date'' \<notin> set (cols df) \<longrightarrow>
      drop_invalid_invoices df = df) \<and>
   (clean E raw remove = Inr res \<and> (k = ''invoice_no'' \<or> k = ''invoice_date'') \<and>
    k \<in> set (cols (standardize_column_names raw)) \<longrightarrow>
      col_all (\<lambda>c. c \<noteq> NA) k (fst res))"
proof -
  have "col_all (\<lambda>c. c \<noteq> NA) k (fst res)"
    if c: "clean E raw remove = Inr res" and k: "k = ''invoice_no'' \<or> k = ''invoice_date''"
      and p: "k \<in> set (cols (standardize_column_names raw))"
  proof -
    from k p have "col_all (\<lambda>c. c \<noteq> NA) k
        (drop_invalid_invoices (convert_dtypes E (standardize_column_names raw)))"
      by (intro col_all_drop_invalid) simp_all
    moreover from k have "k \<notin> {''description'', ''customer_id'', ''country'', ''total_value'',
        ''year'', ''month'', ''is_outlier_quantity'', ''is_outlier_unit_price''}"
      by auto
    ultimately show ?thesis
      using c by (intro col_all_cleaned [of E raw remove res]) 
  qed
  then show ?thesis
    using rows_drop_invalid [of df] drop_invalid_absent [of df] by simp
qed

theorem validity_filter_witness:
  "drop_invalid_invoices no_invoice_columns = no_invoice_columns \<and>
   map fst (rows (drop_invalid_invoices
                    (convert_dtypes example_env (standardize_column_names raw_sales)))) = [0, 3, 4] \<and>
   \<not> isl (clean example_env raw_sales False) \<and>
   ''invoice_no'' \<in> set (cols (standardize_column_names raw_sales)) \<and>
   map fst (rows (fst (projr (clean example_env raw_sales False)))) = [0, 3] \<and>
   col_all (\<lambda>c. c \<noteq> NA) ''invoice_no'' (fst (projr (clean example_env raw_sales False)))"
proof -
  have a: "''invoice_no'' \<notin> set (cols no_invoice_columns) \<and>
           ''invoice_date'' \<notin> set (cols no_invoice_columns)"
    by (simp add: no_invoice_columns_def)
  have b: "map fst (rows (drop_invalid_invoices
             (convert_dtypes example_env (standardize_column_names raw_sales)))) = [0, 3, 4]"
    by code_simp
  have c: "\<not> isl (clean example_env raw_sales False)"
    using clean_raw_sales by simp
  have d: "''invoice_no'' \<in> set (cols (standardize_column_names raw_sales))"
    using standardized_raw_sales by simp
  have e: "map fst (rows (fst (projr (clean example_env raw_sales False)))) = [0, 3]"
    using clean_raw_sales by (simp add: cleaned_sales_def)
  from c have f: "clean example_env raw_sales False = Inr (projr (clean example_env raw_sales False))"
    by (cases "clean example_env raw_sales False") simp_all
  show ?thesis
    using validity_filter_spec [of no_invoice_columns example_env raw_sales False
        "projr (clean example_env raw_sales False)" "''invoice_no''"] a b c d e f
    by simp
qed





text \<open>
  C9. A country that is text is stripped, put in title case and looked up in the alias
  table as it then reads; a form that is not in the table stays as it is. The
  Categorical Normalizer does this to every cell of the \<open>country\<close> column.
\<close>

theorem normalize_country_spec:
  "normalize_country E (Str s) =
     (let t = py_title (py_strip s)
      in Str (if t = ''Uk'' \<or> t = ''United Kingdom'' then ''United Kingdom''
              else if t = ''Eire'' then ''Ireland'' else t)) \<and>
   normalize_country E (Str ''UK'') = Str ''United Kingdom'' \<and>
   normalize_country E (Str ''United Kingdom'') = Str ''United Kingdom'' \<and>
   normalize_country E (Str ''eire'') = Str ''Ireland'' \<and>
   (keyed df \<and> ''country'' \<in> set (cols df) \<longrightarrow>
      map (\<lambda>r. cell_of (snd r) ''country'') (rows (normalize_categorical E df)) =
        map (\<lambda>r. normalize_country E (cell_of (snd r) ''country'')) (rows df))"
proof -
  have gen: "normalize_country E (Str s) =
     (let t = py_title (py_strip s)
      in Str (if t = ''Uk'' \<or> t = ''United Kingdom'' then ''United Kingdom''
              else if t = ''Eire'' then ''Ireland'' else t))" for s
    by (simp add: normalize_country_def astype_str_def apply_map_def country_map_def Let_def)
  have t1: "py_title (py_strip ''UK'') = ''Uk''"
    by code_simp
  have t2: "py_title (py_strip ''United Kingdom'') = ''United Kingdom''"
    by code_simp
  have t3: "py_title (py_strip ''eire'') = ''Eire''"
    by code_simp
  show ?thesis
    using gen [of s] gen [of "''UK''"] gen [of "''United Kingdom''"] gen [of "''eire''"]
      country_normalize_categorical [of df E]
    unfolding t1 t2 t3 by (simp add: Let_def)
qed

theorem normalize_country_witness:
  "keyed countries \<and> ''country'' \<in> set (cols countries) \<and>
   map (\<lambda>r. cell_of (snd r) ''country'') (rows countries) =
     [Str ''UK'', Str ''United Kingdom'', Str '' eire '', Str ''france'', NA] \<and>
   map (\<lambda>r. cell_of (snd r) ''country'') (rows (normalize_categorical example_env countries)) =
     [Str ''United Kingdom'', Str ''United Kingdom'', Str ''Ireland'', Str ''France'',
      Str ''Nan'']"
proof -
  have a: "keyed countries \<and> ''country'' \<in> set (cols countries)"
    by code_simp
  have b: "map (\<lambda>r. cell_of (snd r) ''country'') (rows countries) =
     [Str ''UK'', Str ''United Kingdom'', Str '' eire '', Str ''france'', NA]"
    by code_simp
  have c: "map (\<lambda>r. normalize_country example_env (cell_of (snd r) ''country'')) (rows countries) =
     [Str ''United Kingdom'', Str ''United Kingdom'', Str ''Ireland'', Str ''France'',
      Str ''Nan'']"
    by code_simp
  show ?thesis
    using normalize_country_spec [of example_env "'' eire ''" countries] a b c
    by simp
qed






section \<open>Properties of the Outlier Detector\<close>




lemma nums_dropna:
  "nums (map snd (series_dropna s)) = nums (map snd s)"
  by (induction s) (auto simp: series_dropna_def nums_def)

lemma nums_column: "nums (map snd (column df c)) = column_nums df c"
  by (simp add: column_def column_nums_def comp_def)

lemma outside_iqr_NA [simp]: "\<not> outside_iqr xs NA"
  by (simp add: outside_iqr_def cell_lt_def cell_gt_def Let_def)

lemma detect_mask:
  "fst (detect_outliers_iqr s) = map (\<lambda>p. (fst p, outside_iqr (nums (map snd s)) (snd p))) s"
  by (simp add: detect_outliers_iqr_def outside_iqr_def Let_def)

lemma map_of_labelled:
  assumes "distinct (map fst xs)" and "(i, v) \<in> set xs"
  shows "map_of (map (\<lambda>p. (fst p, f (snd p))) (filter P xs)) i =
           (if P (i, v) then Some (f v) else None)"
proof (cases "P (i, v)")
  case True
  have d: "distinct (map fst (map (\<lambda>p. (fst p, f (snd p))) (filter P xs)))"
    using assms(1) by (simp add: comp_def distinct_map_filter)
  have "(i, f v) \<in> set (map (\<lambda>p. (fst p, f (snd p))) (filter P xs))"
    using assms(2) True by force
  with d have "map_of (map (\<lambda>p. (fst p, f (snd p))) (filter P xs)) i = Some (f v)"
    by (rule map_of_is_SomeI)
  with True show ?thesis by simp
next
  case False
  have "i \<notin> fst ` set (map (\<lambda>p. (fst p, f (snd p))) (filter P xs))"
  proof
    assume "i \<in> fst ` set (map (\<lambda>p. (fst p, f (snd p))) (filter P xs))"
    then obtain w where w: "(i, w) \<in> set xs" "P (i, w)"
      by force
    with assms have "w = v"
      by (meson eq_key_imp_eq_value)
    with w False show False by simp
  qed
  then have "map_of (map (\<lambda>p. (fst p, f (snd p))) (filter P xs)) i = None"
    by (simp add: map_of_eq_None_iff)
  with False show ?thesis by simp
qed

lemma outlier_mask_rows:
  assumes "distinct (map fst (rows df))"
  shows "outlier_mask df c =
           map (\<lambda>r. Bool (outside_iqr (column_nums df c) (cell_of (snd r) c))) (rows df)"
proof -
  let ?xs = "column_nums df c"
  let ?m = "map (\<lambda>p. (fst p, outside_iqr ?xs (snd p))) (filter (\<lambda>p. snd p \<noteq> NA) (column df c))"
  have m: "fst (detect_outliers_iqr (series_dropna (column df c))) = ?m"
    by (simp add: detect_mask nums_dropna nums_column) (simp add: series_dropna_def)
  have dl: "distinct (map fst (column df c))"
    using assms by (simp add: column_def comp_def)
  have look: "map_of ?m (fst r) =
      (if cell_of (snd r) c \<noteq> NA then Some (outside_iqr ?xs (cell_of (snd r) c)) else None)"
    if "r \<in> set (rows df)" for r
  proof -
    from that have "(fst r, cell_of (snd r) c) \<in> set (column df c)"
      by (force simp: column_def)
    from map_of_labelled [OF dl this, of "outside_iqr ?xs" "\<lambda>p. snd p \<noteq> NA"]
    show ?thesis by simp
  qed
  have "outlier_mask df c =
      map (\<lambda>p. Bool (snd p)) (set_by_label (map (\<lambda>r. (fst r, False)) (rows df)) ?m)"
    using m by (simp add: outlier_mask_def Let_def case_prod_beta)
  also have "\<dots> = map (\<lambda>r. Bool (outside_iqr ?xs (cell_of (snd r) c))) (rows df)"
    by (auto simp: set_by_label_def comp_def look)
  finally show ?thesis .
qed

lemma labels_assign_map:
  "map fst (rows (assign c (map g (rows t)) t)) = map fst (rows t)"
  by (simp add: rows_assign_map comp_def)

lemma column_nums_assign:
  "k \<noteq> c \<Longrightarrow> column_nums (assign c (map g (rows t)) t) k = column_nums t k"
  by (simp add: column_nums_def rows_assign_map comp_def cell_of_update)

lemma flagged_table:
  assumes "distinct (map fst (rows df))"
  defines "df1 \<equiv> (if ''quantity'' \<in> set (cols df)
                 then assign ''is_outlier_quantity'' (outlier_mask df ''quantity'') df else df)"
  defines "df2 \<equiv> (if ''unit_price'' \<in> set (cols df1)
                 then assign ''is_outlier_unit_price'' (outlier_mask df1 ''unit_price'') df1
                 else df1)"
  shows "rows df2 =
           map (\<lambda>r. (fst r, flag_row (cols df) (column_nums df ''quantity'')
                               (column_nums df ''unit_price'') (snd r))) (rows df)"
proof -
  let ?gq = "\<lambda>r. Bool (outside_iqr (column_nums df ''quantity'') (cell_of (snd r) ''quantity''))"
  have r1: "rows df1 =
      map (\<lambda>r. (fst r, if ''quantity'' \<in> set (cols df)
                        then AList.update ''is_outlier_quantity'' (?gq r) (snd r) else snd r))
          (rows df)"
    using outlier_mask_rows [OF assms(1), of "''quantity''"]
    by (simp add: df1_def rows_assign_map)
  have d1: "distinct (map fst (rows df1))"
    using assms(1) by (simp add: r1 comp_def)
  have c1: "''unit_price'' \<in> set (cols df1) \<longleftrightarrow> ''unit_price'' \<in> set (cols df)"
    by (simp add: df1_def cols_assign)
  have n1: "column_nums df1 ''unit_price'' = column_nums df ''unit_price''"
    by (cases "''quantity'' \<in> set (cols df)")
       (simp_all add: column_nums_def r1 comp_def cell_of_update)
  let ?gp = "\<lambda>r. Bool (outside_iqr (column_nums df ''unit_price'') (cell_of (snd r) ''unit_price''))"
  have r2: "rows df2 =
      map (\<lambda>r. (fst r, if ''unit_price'' \<in> set (cols df)
                        then AList.update ''is_outlier_unit_price'' (?gp r) (snd r) else snd r))
          (rows df1)"
    using outlier_mask_rows [OF d1, of "''unit_price''"]
    by (simp add: df2_def rows_assign_map c1 n1)
  show ?thesis
    unfolding r2 r1
    by (cases "''quantity'' \<in> set (cols df)")
       (simp_all add: comp_def flag_row_def Let_def cell_of_update)
qed

lemma flag_result_rows:
  assumes "distinct (map fst (rows df))"
  shows "rows (fst (flag_and_optionally_remove_outliers df remove)) =
           (let rs = map (\<lambda>r. (fst r, flag_row (cols df) (column_nums df ''quantity'')
                                         (column_nums df ''unit_price'') (snd r))) (rows df)
            in if remove then filter (\<lambda>r. \<not> any_true (outlier_columns (cols df)) r) rs else rs)"
proof -
  let ?df1 = "(if ''quantity'' \<in> set (cols df)
                 then assign ''is_outlier_quantity'' (outlier_mask df ''quantity'') df else df)"
  let ?df2 = "(if ''unit_price'' \<in> set (cols ?df1)
                 then assign ''is_outlier_unit_price'' (outlier_mask ?df1 ''unit_price'') ?df1
                 else ?df1)"
  have c1: "''unit_price'' \<in> set (cols ?df1) \<longleftrightarrow> ''unit_price'' \<in> set (cols df)"
    by (simp add: cols_assign)
  have oc: "(if ''quantity'' \<in> set (cols df) then [''is_outlier_quantity''] else []) @
            (if ''unit_price'' \<in> set (cols ?df1) then [''is_outlier_unit_price''] else []) =
            outlier_columns (cols df)"
    unfolding c1 by (simp add: outlier_columns_def)
  have none: "any_true [] r = False" for r
    by (simp add: any_true_def)
  have "rows (fst (flag_and_optionally_remove_outliers df remove)) =
          (if remove then filter (\<lambda>r. \<not> any_true (outlier_columns (cols df)) r) (rows ?df2)
           else rows ?df2)"
    unfolding flag_and_optionally_remove_outliers_def Let_def oc
    by (cases "outlier_columns (cols df) = []") (simp_all add: none)
  then show ?thesis
    unfolding flagged_table [OF assms] Let_def .
qed

lemma mset_concat_map: "mset (concat (map h xs)) = (\<Sum>x\<in>#mset xs. mset (h x))"
  by (induction xs) auto

lemma column_nums_mset:
  assumes "mset (map snd (rows df')) = mset (map snd (rows df))"
  shows "mset (column_nums df' c) = mset (column_nums df c)"
proof -
  have "mset (column_nums t c) =
      (\<Sum>r\<in>#mset (map snd (rows t)). mset (case cell_of r c of Num x \<Rightarrow> [x] | _ \<Rightarrow> []))" for t
    by (simp add: column_nums_def nums_def mset_concat_map comp_def image_mset.compositionality)
  with assms show ?thesis by simp
qed

lemma quantile_mset: "mset xs = mset ys \<Longrightarrow> quantile q xs = quantile q ys"
proof -
  assume m: "mset xs = mset ys"
  then have "sort xs = sort ys"
    by (metis mset_sort properties_for_sort sorted_sort)
  moreover from m have "length xs = length ys"
    by (rule mset_eq_length)
  moreover from m have "xs = [] \<longleftrightarrow> ys = []"
    by (metis mset_zero_iff)
  ultimately show ?thesis
    by (simp add: quantile_def)
qed

lemma outside_iqr_mset: "mset xs = mset ys \<Longrightarrow> outside_iqr xs = outside_iqr ys"
  by (rule ext) (simp add: outside_iqr_def quantile_mset [of xs ys])

lemma contents_flag_result:
  assumes "distinct (map fst (rows df))"
  shows "map snd (rows (fst (flag_and_optionally_remove_outliers df remove))) =
           (let rs = map (flag_row (cols df) (column_nums df ''quantity'')
                            (column_nums df ''unit_price'')) (map snd (rows df))
            in if remove
               then filter (\<lambda>r. \<not> any_true (outlier_columns (cols df)) (0, r)) rs else rs)"
proof -
  have "map snd (filter (\<lambda>r. \<not> any_true cs r) (map (\<lambda>r. (fst r, G (snd r))) rs)) =
          filter (\<lambda>r. \<not> any_true cs (0, r)) (map G (map snd rs))"
    for cs G and rs :: "(nat \<times> row) list"
    by (induction rs) (simp_all add: any_true_def)
  then show ?thesis
    by (simp add: flag_result_rows [OF assms] Let_def comp_def)
qed










section \<open>Outlier Detector: the claims\<close>



text \<open>
  C8. Flagging does not depend on the order of the rows: two tables with the same
  columns and the same rows, in any order and under any labels, get the same rows with
  the same flags, counted with multiplicity (also when flagged rows are removed).
\<close>

theorem outlier_flags_order_independent:
  assumes "cols df' = cols df"
    and "mset (map snd (rows df')) = mset (map snd (rows df))"
    and "distinct (map fst (rows df))" and "distinct (map fst (rows df'))"
  shows "mset (map snd (rows (fst (flag_and_optionally_remove_outliers df' remove)))) =
         mset (map snd (rows (fst (flag_and_optionally_remove_outliers df remove))))"
proof -
  have "mset (column_nums df' ''quantity'') = mset (column_nums df ''quantity'')"
    using assms(2) by (rule column_nums_mset)
  then have xq: "outside_iqr (column_nums df' ''quantity'') = outside_iqr (column_nums df ''quantity'')"
    by (rule outside_iqr_mset)
  have "mset (column_nums df' ''unit_price'') = mset (column_nums df ''unit_price'')"
    using assms(2) by (rule column_nums_mset)
  then have xp: "outside_iqr (column_nums df' ''unit_price'') = outside_iqr (column_nums df ''unit_price'')"
    by (rule outside_iqr_mset)
  define G where "G = flag_row (cols df) (column_nums df ''quantity'') (column_nums df ''unit_price'')"
  define Q where "Q = (\<lambda>r. \<not> any_true (outlier_columns (cols df)) (0, r))"
  have G': "flag_row (cols df) (column_nums df' ''quantity'') (column_nums df' ''unit_price'') = G"
    unfolding G_def flag_row_def xq xp ..
  have o: "map snd (rows (fst (flag_and_optionally_remove_outliers df remove))) =
             (if remove then filter Q (map G (map snd (rows df))) else map G (map snd (rows df)))"
    unfolding contents_flag_result [OF assms(3)] Let_def G_def Q_def ..
  have o': "map snd (rows (fst (flag_and_optionally_remove_outliers df' remove))) =
             (if remove then filter Q (map G (map snd (rows df'))) else map G (map snd (rows df')))"
    unfolding contents_flag_result [OF assms(4)] Let_def G' Q_def assms(1) ..
  have "image_mset G (mset (map snd (rows df'))) = image_mset G (mset (map snd (rows df)))"
    using assms(2) by (rule arg_cong)
  then have m: "mset (map G (map snd (rows df'))) = mset (map G (map snd (rows df)))"
    by (simp only: mset_map)
  then have "filter_mset Q (mset (map G (map snd (rows df')))) =
             filter_mset Q (mset (map G (map snd (rows df))))"
    by (rule arg_cong)
  then have f: "mset (filter Q (map G (map snd (rows df')))) =
                mset (filter Q (map G (map snd (rows df))))"
    by (simp only: mset_filter)
  show ?thesis
    unfolding o o' using m f by (cases remove) simp_all
qed


theorem outlier_flags_order_witness:
  "cols quantities_reversed = cols quantities \<and>
   mset (map snd (rows quantities_reversed)) = mset (map snd (rows quantities)) \<and>
   map fst (rows quantities_reversed) = [12, 11, 9, 8, 7, 5, 4, 2, 1, 0] \<and>
   distinct (map fst (rows quantities)) \<and> distinct (map fst (rows quantities_reversed)) \<and>
   mset (map snd (rows (fst (flag_and_optionally_remove_outliers quantities_reversed False)))) =
   mset (map snd (rows (fst (flag_and_optionally_remove_outliers quantities False))))"
proof -
  have a: "cols quantities_reversed = cols quantities"
    by (simp add: quantities_reversed_def)
  have b: "mset (map snd (rows quantities_reversed)) = mset (map snd (rows quantities))"
    by (simp add: quantities_reversed_def flip: rev_map)
  have c: "map fst (rows quantities_reversed) = [12, 11, 9, 8, 7, 5, 4, 2, 1, 0]"
    by code_simp
  have d: "distinct (map fst (rows quantities))"
    by code_simp
  have e: "distinct (map fst (rows quantities_reversed))"
    unfolding c by simp
  have f: "mset (map snd (rows (fst (flag_and_optionally_remove_outliers quantities_reversed False)))) =
           mset (map snd (rows (fst (flag_and_optionally_remove_outliers quantities False))))"
    using a b d e by (rule outlier_flags_order_independent)
  from a b c d e f show ?thesis
    by (intro conjI)
qed

section \<open>The files a run writes\<close>

lemma duplicate_log_files:
  "f \<in> set (snd (deduplicate_and_log df)) \<Longrightarrow>
     fst f = ''duplicates_logged.csv'' \<and> \<not> frame_empty (snd f)"
  by (auto simp: deduplicate_and_log_def Let_def split: if_splits)

lemma outlier_log_files:
  "f \<in> set (snd (flag_and_optionally_remove_outliers df remove)) \<Longrightarrow>
     fst f = ''outliers_logged.csv'' \<and> \<not> frame_empty (snd f)"
  by (auto simp: flag_and_optionally_remove_outliers_def Let_def split: if_splits)

lemma metrics_not_empty: "\<not> frame_empty (metrics_df df)"
  by (simp add: metrics_df_def frame_empty_def)

lemma summary_files:
  "map fst (create_summary_tables E df) =
     (if ''total_value'' \<in> set (cols df) \<and> ''invoice_date'' \<in> set (cols df)
      then [''revenue_by_month.csv''] else []) @
     (if ''total_value'' \<in> set (cols df) \<and> ''description'' \<in> set (cols df)
      then [''top10_products_by_sales.csv''] else []) @
     [''overall_metrics.csv'']"
  by (simp add: create_summary_tables_def)

lemma summary_metrics_file:
  "f \<in> set (create_summary_tables E df) \<Longrightarrow> fst f = ''overall_metrics.csv'' \<Longrightarrow>
     snd f = metrics_df df"
  by (auto simp: create_summary_tables_def split: if_splits)

lemma summary_file_names:
  "f \<in> set (create_summary_tables E df) \<Longrightarrow>
     fst f \<noteq> ''duplicates_logged.csv'' \<and> fst f \<noteq> ''outliers_logged.csv''"
  by (auto simp: create_summary_tables_def split: if_splits)

lemma run_files:
  assumes "clean_and_analyze E raw remove = Inr files"
  obtains df6 df7 df8 where
    "clean E raw remove = Inr (df8, snd (deduplicate_and_log df6) @
                                     snd (flag_and_optionally_remove_outliers df7 remove))"
    and "files = snd (deduplicate_and_log df6) @
                 snd (flag_and_optionally_remove_outliers df7 remove) @
                 [(''retail_cleaned.csv'', df8)] @ create_summary_tables E df8"
proof -
  from assms obtain df8 logs where c: "clean E raw remove = Inr (df8, logs)"
    and f: "files = logs @ [(''retail_cleaned.csv'', df8)] @ create_summary_tables E df8"
    by (auto simp: clean_and_analyze_def split: sum.splits prod.splits)
  from c obtain df6 df7 dups outs where
    d: "deduplicate_and_log df6 = (df7, dups)"
    and o: "flag_and_optionally_remove_outliers df7 remove = (df8, outs)"
    and l: "logs = dups @ outs"
    by (auto simp: clean_def Let_def split: sum.splits prod.splits)
  from d o l have l': "logs = snd (deduplicate_and_log df6) @
                             snd (flag_and_optionally_remove_outliers df7 remove)"
    by simp
  show thesis
    using c f unfolding l' by (intro that [of df8 df6 df7]) simp_all
qed

text \<open>
  C5, as the code has it. The duplicate log and the outlier log are written only when
  they are not empty. The summaries are not guarded so: a run writes
  \<open>revenue_by_month.csv\<close> whenever the cleaned table has the columns \<open>total_value\<close> and
  \<open>invoice_date\<close>, \<open>top10_products_by_sales.csv\<close> whenever it has \<open>total_value\<close> and
  \<open>description\<close>, and always \<open>overall_metrics.csv\<close>, which has two rows.
\<close>

theorem side_artifacts_written:
  "(clean_and_analyze E raw remove = Inr files \<and> f \<in> set files \<and>
    (fst f = ''duplicates_logged.csv'' \<or> fst f = ''outliers_logged.csv'' \<or>
     fst f = ''overall_metrics.csv'') \<longrightarrow> \<not> frame_empty (snd f)) \<and>
   (clean_and_analyze E raw remove = Inr files \<longrightarrow>
      (\<exists>df logs. clean E raw remove = Inr (df, logs) \<and>
         (''revenue_by_month.csv'' \<in> set (map fst files) \<longleftrightarrow>
            ''total_value'' \<in> set (cols df) \<and> ''invoice_date'' \<in> set (cols df)) \<and>
         (''top10_products_by_sales.csv'' \<in> set (map fst files) \<longleftrightarrow>
            ''total_value'' \<in> set (cols df) \<and> ''description'' \<in> set (cols df)) \<and>
         ''overall_metrics.csv'' \<in> set (map fst files)))"
proof (intro conjI impI)
  assume a: "clean_and_analyze E raw remove = Inr files \<and> f \<in> set files \<and>
    (fst f = ''duplicates_logged.csv'' \<or> fst f = ''outliers_logged.csv'' \<or>
     fst f = ''overall_metrics.csv'')"
  then obtain df6 df7 df8 where
    files: "files = snd (deduplicate_and_log df6) @
                 snd (flag_and_optionally_remove_outliers df7 remove) @
                 [(''retail_cleaned.csv'', df8)] @ create_summary_tables E df8"
    by (auto elim: run_files)
  from a files consider
      "f \<in> set (snd (deduplicate_and_log df6))"
    | "f \<in> set (snd (flag_and_optionally_remove_outliers df7 remove))"
    | "f = (''retail_cleaned.csv'', df8)"
    | "f \<in> set (create_summary_tables E df8)"
    by auto
  then show "\<not> frame_empty (snd f)"
  proof cases
    case 1
    then show ?thesis by (simp add: duplicate_log_files)
  next
    case 2
    then show ?thesis by (simp add: outlier_log_files)
  next
    case 3
    with a show ?thesis by auto
  next
    case 4
    with a summary_file_names [OF 4] have "fst f = ''overall_metrics.csv''"
      by blast
    with 4 have "snd f = metrics_df df8"
      by (rule summary_metrics_file)
    then show ?thesis by (simp add: metrics_not_empty)
  qed
next
  assume a: "clean_and_analyze E raw remove = Inr files"
  then obtain df6 df7 df8 where
    c: "clean E raw remove = Inr (df8, snd (deduplicate_and_log df6) @
                                     snd (flag_and_optionally_remove_outliers df7 remove))"
    and files: "files = snd (deduplicate_and_log df6) @
                 snd (flag_and_optionally_remove_outliers df7 remove) @
                 [(''retail_cleaned.csv'', df8)] @ create_summary_tables E df8"
    by (rule run_files)
  have d: "set (map fst (snd (deduplicate_and_log df6))) \<subseteq> {''duplicates_logged.csv''}"
    using duplicate_log_files [of _ df6] by auto
  have o: "set (map fst (snd (flag_and_optionally_remove_outliers df7 remove))) \<subseteq>
             {''outliers_logged.csv''}"
    using outlier_log_files [of _ df7 remove] by auto
  have names: "set (map fst files) =
      set (map fst (snd (deduplicate_and_log df6))) \<union>
      set (map fst (snd (flag_and_optionally_remove_outliers df7 remove))) \<union>
      {''retail_cleaned.csv''} \<union> set (map fst (create_summary_tables E df8))"
    unfolding files by auto
  have "(''revenue_by_month.csv'' \<in> set (map fst files) \<longleftrightarrow>
            ''total_value'' \<in> set (cols df8) \<and> ''invoice_date'' \<in> set (cols df8)) \<and>
         (''top10_products_by_sales.csv'' \<in> set (map fst files) \<longleftrightarrow>
            ''total_value'' \<in> set (cols df8) \<and> ''description'' \<in> set (cols df8)) \<and>
         ''overall_metrics.csv'' \<in> set (map fst files)"
    unfolding names summary_files using d o by auto
  with c show "\<exists>df logs. clean E raw remove = Inr (df, logs) \<and>
         (''revenue_by_month.csv'' \<in> set (map fst files) \<longleftrightarrow>
            ''total_value'' \<in> set (cols df) \<and> ''invoice_date'' \<in> set (cols df)) \<and>
         (''top10_products_by_sales.csv'' \<in> set (map fst files) \<longleftrightarrow>
            ''total_value'' \<in> set (cols df) \<and> ''description'' \<in> set (cols df)) \<and>
         ''overall_metrics.csv'' \<in> set (map fst files)"
    by blast
qed

theorem side_artifacts_witness:
  "\<not> isl (clean_and_analyze example_env raw_sales False) \<and>
   map fst (projr (clean_and_analyze example_env raw_sales False)) =
     [''duplicates_logged.csv'', ''retail_cleaned.csv'', ''revenue_by_month.csv'',
      ''top10_products_by_sales.csv'', ''overall_metrics.csv''] \<and>
   \<not> frame_empty (snd (hd (projr (clean_and_analyze example_env raw_sales False))))"
proof -
  let ?files = "projr (clean_and_analyze example_env raw_sales False)"
  have a: "\<not> isl (clean_and_analyze example_env raw_sales False)"
    by code_simp
  have b: "map fst ?files =
     [''duplicates_logged.csv'', ''retail_cleaned.csv'', ''revenue_by_month.csv'',
      ''top10_products_by_sales.csv'', ''overall_metrics.csv'']"
    by code_simp
  from a have c: "clean_and_analyze example_env raw_sales False = Inr ?files"
    by (cases "clean_and_analyze example_env raw_sales False") simp_all
  from b have d: "hd ?files \<in> set ?files" and e: "fst (hd ?files) = ''duplicates_logged.csv''"
    by (cases ?files; simp)+
  have "\<not> frame_empty (snd (hd ?files))"
    using side_artifacts_written [of example_env raw_sales False ?files "hd ?files"] c d e
    by blast
  with a b show ?thesis
    by (intro conjI)
qed

theorem side_artifacts_counterexample:
  "clean_and_analyze example_env raw_all_invalid False =
     Inr [(''retail_cleaned.csv'',
           \<lparr>cols = [''invoice_no'', ''invoice_date'', ''description'', ''quantity'',
                    ''unit_price'', ''total_value'', ''year'', ''month'',
                    ''is_outlier_quantity'', ''is_outlier_unit_price''],
            rows = []\<rparr>),
          (''revenue_by_month.csv'',
           \<lparr>cols = [''year'', ''month'', ''total_value''], rows = []\<rparr>),
          (''top10_products_by_sales.csv'',
           \<lparr>cols = [''description'', ''total_value''], rows = []\<rparr>),
          (''overall_metrics.csv'',
           \<lparr>cols = [''metric'', ''value''],
            rows = [(0, [(''metric'', Str ''unique_customers''), (''value'', NA)]),
                    (1, [(''metric'', Str ''average_order_value''), (''value'', NA)])]\<rparr>)] \<and>
   frame_empty \<lparr>cols = [''year'', ''month'', ''total_value''], rows = []\<rparr> \<and>
   frame_empty \<lparr>cols = [''description'', ''total_value''], rows = []\<rparr>"
  by code_simp

section \<open>Summary Builder: the product summary\<close>

lemma stable_sorts_descending: "sorts_descending example_env"
proof -
  have "sorted (map (\<lambda>p. - snd (snd p)) (sort_key (\<lambda>p. - snd (snd p)) ps))" for ps :: "product list"
    by (rule sorted_sort_key)
  then have "sorted_wrt (\<lambda>a b. total_of b \<le> total_of a) (sort_key (\<lambda>p. - snd (snd p)) ps)"
    for ps :: "product list"
    by (simp add: sorted_map total_of_def)
  then show ?thesis
    by (simp add: sorts_descending_def example_env_def stable_sort_desc_def)
qed

lemma reversing_sorts_descending: "sorts_descending tie_reversing_env"
proof -
  have "sorted (map (\<lambda>p. snd (snd p)) (sort_key (\<lambda>p. snd (snd p)) ps))" for ps :: "product list"
    by (rule sorted_sort_key)
  then have "sorted_wrt (\<lambda>a b. total_of b \<le> total_of a) (rev (sort_key (\<lambda>p. snd (snd p)) ps))"
    for ps :: "product list"
    by (simp add: sorted_map total_of_def sorted_wrt_rev)
  then show ?thesis
    by (simp add: sorts_descending_def tie_reversing_env_def example_env_def)
qed

lemma top_products_props:
  assumes "sorts_descending E"
  shows "length (top_products E df) = min 10 (length (product_totals df))"
    and "sorted_wrt (\<lambda>a b. total_of b \<le> total_of a) (top_products E df)"
    and "mset (top_products E df) \<subseteq># mset (product_totals df)"
    and "\<forall>p \<in># mset (product_totals df) - mset (top_products E df).
           \<forall>q \<in> set (top_products E df). total_of p \<le> total_of q"
proof -
  let ?s = "sort_values_desc E (product_totals df)"
  from assms have m: "mset ?s = mset (product_totals df)"
    and s: "sorted_wrt (\<lambda>a b. total_of b \<le> total_of a) ?s"
    by (simp_all add: sorts_descending_def)
  from m have "length ?s = length (product_totals df)"
    by (rule mset_eq_length)
  then show "length (top_products E df) = min 10 (length (product_totals df))"
    by (simp add: top_products_def min.commute)
  from s show "sorted_wrt (\<lambda>a b. total_of b \<le> total_of a) (top_products E df)"
    unfolding top_products_def by (rule sorted_wrt_take)
  have split: "mset (take 10 ?s) + mset (drop 10 ?s) = mset (product_totals df)"
    unfolding m [symmetric] by (simp flip: mset_append)
  then show "mset (top_products E df) \<subseteq># mset (product_totals df)"
    unfolding top_products_def by (metis mset_subset_eq_add_left)
  from split have rest: "mset (product_totals df) - mset (take 10 ?s) = mset (drop 10 ?s)"
    by (metis add_diff_cancel_left')
  from s have "sorted_wrt (\<lambda>a b. total_of b \<le> total_of a) (take 10 ?s @ drop 10 ?s)"
    by simp
  then have "\<forall>q \<in> set (take 10 ?s). \<forall>p \<in> set (drop 10 ?s). total_of p \<le> total_of q"
    unfolding sorted_wrt_append by blast
  then show "\<forall>p \<in># mset (product_totals df) - mset (top_products E df).
           \<forall>q \<in> set (top_products E df). total_of p \<le> total_of q"
    unfolding top_products_def rest by simp
qed

lemma product_totals_props:
  "map fst (product_totals df) = [0..<length (product_totals df)]"
  "sorted (map description (product_totals df))"
  "distinct (map description (product_totals df))"
  "set (map description (product_totals df)) = {d. \<exists>r \<in> set (rows df). description_of r = Some d}"
  "\<forall>p \<in> set (product_totals df).
     total_of p = group_total (\<lambda>r. description_of r = Some (description p)) df"
proof -
  define ks where "ks = sort (remdups (concat (map (\<lambda>r. case description_of r of Some s \<Rightarrow> [s]
                                                 | None \<Rightarrow> []) (rows df))))"
  define ts where "ts = map (\<lambda>k. (k, group_total (\<lambda>r. description_of r = Some k) df)) ks"
  have pt: "product_totals df = zip [0..<length ts] ts"
    by (simp add: product_totals_def ks_def ts_def Let_def)
  have "map description xs = map fst (map snd xs)" for xs :: "product list"
    by (simp add: description_def [abs_def] comp_def)
  then have "map description (zip [0..<length ts] ts) = map fst (map snd (zip [0..<length ts] ts))" .
  also have "map snd (zip [0..<length ts] ts) = ts"
    by (simp add: map_snd_zip)
  also have "map fst ts = ks"
    by (simp add: ts_def comp_def)
  finally have d: "map description (product_totals df) = ks"
    unfolding pt .
  show "map fst (product_totals df) = [0..<length (product_totals df)]"
    unfolding pt by simp
  show "sorted (map description (product_totals df))"
    unfolding d ks_def by simp
  show "distinct (map description (product_totals df))"
    unfolding d ks_def by simp
  show "set (map description (product_totals df)) =
          {d. \<exists>r \<in> set (rows df). description_of r = Some d}"
    unfolding d ks_def by (auto split: option.splits)
  have "\<forall>p \<in> set (zip [0..<length ts] ts).
          total_of p = group_total (\<lambda>r. description_of r = Some (description p)) df"
    by (auto simp: ts_def total_of_def description_def dest!: set_zip_rightD)
  then show "\<forall>p \<in> set (product_totals df).
     total_of p = group_total (\<lambda>r. description_of r = Some (description p)) df"
    unfolding pt .
qed

text \<open>
  C4, as the code has it. The product summary has one row per description with the sum
  of its \<open>total_value\<close>; it is in non-increasing order of the total and holds the ten
  largest groups, or all of them when there are fewer than ten. The order of groups
  with equal totals is whatever the sort returns: the code sorts with the default kind
  of \<^verbatim>\<open>sort_values\<close>, which is not stable.
\<close>

theorem top_products_spec:
  "sorts_descending E \<longrightarrow>
     length (top_products E df) = min 10 (length (product_totals df)) \<and>
     sorted_wrt (\<lambda>a b. total_of b \<le> total_of a) (top_products E df) \<and>
     mset (top_products E df) \<subseteq># mset (product_totals df) \<and>
     (\<forall>p \<in># mset (product_totals df) - mset (top_products E df).
        \<forall>q \<in> set (top_products E df). total_of p \<le> total_of q) \<and>
     distinct (map description (product_totals df)) \<and>
     set (map description (product_totals df)) =
       {d. \<exists>r \<in> set (rows df). description_of r = Some d} \<and>
     (\<forall>p \<in> set (product_totals df).
        total_of p = group_total (\<lambda>r. description_of r = Some (description p)) df)"
  using top_products_props [of E df] product_totals_props [of df]
  by (intro impI conjI)

theorem top_products_witness:
  "sorts_descending example_env \<and>
   length (product_totals product_sales) = 12 \<and>
   top_products example_env product_sales =
     [(4, ''E'', 4), (9, ''J'', 4), (3, ''D'', 3), (8, ''I'', 3), (2, ''C'', 2),
      (7, ''H'', 2), (1, ''B'', 1), (6, ''G'', 1), (11, ''L'', 1), (0, ''A'', 0)] \<and>
   length (top_products example_env product_sales) = min 10 (length (product_totals product_sales)) \<and>
   sorted_wrt (\<lambda>a b. total_of b \<le> total_of a) (top_products example_env product_sales)"
proof -
  have a: "sorts_descending example_env"
    by (rule stable_sorts_descending)
  have b: "length (product_totals product_sales) = 12"
    by code_simp
  have c: "top_products example_env product_sales =
     [(4, ''E'', 4), (9, ''J'', 4), (3, ''D'', 3), (8, ''I'', 3), (2, ''C'', 2),
      (7, ''H'', 2), (1, ''B'', 1), (6, ''G'', 1), (11, ''L'', 1), (0, ''A'', 0)]"
    by code_simp
  have d: "length (top_products example_env product_sales) =
             min 10 (length (product_totals product_sales)) \<and>
           sorted_wrt (\<lambda>a b. total_of b \<le> total_of a) (top_products example_env product_sales)"
    using top_products_spec [of example_env product_sales] a by blast
  from a b c d show ?thesis
    by (intro conjI) blast+
qed

theorem top_products_ties_counterexample:
  "sorts_descending example_env \<and> sorts_descending tie_reversing_env \<and>
   map description_of (rows tied_products) = [Some ''Bell'', Some ''Apron'', Some ''Clock''] \<and>
   product_totals tied_products = [(0, ''Apron'', 5), (1, ''Bell'', 5), (2, ''Clock'', 7)] \<and>
   top_products example_env tied_products = [(2, ''Clock'', 7), (0, ''Apron'', 5), (1, ''Bell'', 5)] \<and>
   top_products tie_reversing_env tied_products =
     [(2, ''Clock'', 7), (1, ''Bell'', 5), (0, ''Apron'', 5)]"
proof -
  have "map description_of (rows tied_products) = [Some ''Bell'', Some ''Apron'', Some ''Clock''] \<and>
   product_totals tied_products = [(0, ''Apron'', 5), (1, ''Bell'', 5), (2, ''Clock'', 7)] \<and>
   top_products example_env tied_products = [(2, ''Clock'', 7), (0, ''Apron'', 5), (1, ''Bell'', 5)] \<and>
   top_products tie_reversing_env tied_products =
     [(2, ''Clock'', 7), (1, ''Bell'', 5), (0, ''Apron'', 5)]"
    by code_simp
  with stable_sorts_descending reversing_sorts_descending show ?thesis
    by (intro conjI) blast+
qed

end
